theory Spec2Isabelle
  imports Complex_Main
begin

section \<open>Strings as Python has them\<close>

text \<open>
  Text is modelled as \<^typ>\<open>string\<close>, one \<^typ>\<open>char\<close> per code point (code points
  below 256). The helpers below are the Python string methods that
  \<^verbatim>\<open>apt/package.py\<close> calls.
\<close>

abbreviation NL :: char where
  "NL \<equiv> CHR 0x0A"

definition startswith :: "string \<Rightarrow> string \<Rightarrow> bool" where
  "startswith s p = (take (length p) s = p)"

definition endswith :: "string \<Rightarrow> string \<Rightarrow> bool" where
  "endswith s p = (length p \<le> length s \<and> drop (length s - length p) s = p)"

text \<open>\<^verbatim>\<open>s.split(c)\<close> for a one-character separator: never the empty list.\<close>

fun split_on :: "char \<Rightarrow> string \<Rightarrow> string list" where
  "split_on c [] = [[]]"
| "split_on c (x # xs) =
     (if x = c then [] # split_on c xs
      else (case split_on c xs of
              [] \<Rightarrow> [[x]]
            | l # ls \<Rightarrow> (x # l) # ls))"

text \<open>\<^verbatim>\<open>s.split(c, 1)\<close>: at most one split, at the first separator.\<close>

definition split_once :: "char \<Rightarrow> string \<Rightarrow> string list" where
  "split_once c s =
     (if c \<in> set s then [takeWhile (\<lambda>x. x \<noteq> c) s, tl (dropWhile (\<lambda>x. x \<noteq> c) s)]
      else [s])"

text \<open>The white space that \<^verbatim>\<open>unicode.strip()\<close> removes, among the code points below 256.\<close>

definition isspace :: "char \<Rightarrow> bool" where
  "isspace c = (of_char c \<in> {9, 10, 11, 12, 13, 28, 29, 30, 31, 32, 133, 160 :: nat})"

definition strip :: "string \<Rightarrow> string" where
  "strip s = rev (dropWhile isspace (rev (dropWhile isspace s)))"

section \<open>Version.description\<close>

text \<open>
  The body of the \<^verbatim>\<open>for raw_line in lines\<close> loop of \<^verbatim>\<open>Version.description\<close>, with the
  accumulated \<^verbatim>\<open>desc\<close> as second argument.
\<close>

fun format_lines :: "string list \<Rightarrow> string \<Rightarrow> string" where
  "format_lines [] desc = desc"
| "format_lines (raw_line # lines) desc =
     (if strip raw_line = ''.'' then
        (if \<not> endswith desc [NL] then format_lines lines (desc @ [NL, NL])
         else format_lines lines desc)
      else
        (let line =
           (if startswith raw_line ''  '' then
              (if \<not> endswith desc [NL] then [NL] @ drop 2 raw_line @ [NL]
               else drop 2 raw_line @ [NL])
            else if startswith raw_line '' '' then
              (if endswith desc [NL] \<or> desc = [] then drop 1 raw_line
               else raw_line)
            else raw_line)
         in format_lines lines (desc @ line)))"

text \<open>
  \<^verbatim>\<open>LongDesc\<close> is a byte string; \<^verbatim>\<open>unicode(dsc, "utf-8")\<close> either yields its text
  (\<open>Inr\<close>) or raises \<^verbatim>\<open>UnicodeDecodeError\<close> with a message (\<open>Inl\<close>), in which case the
  property returns a message instead of raising. \<^verbatim>\<open>_\<close> is gettext without a catalogue:
  the message itself.
\<close>

definition invalid_unicode_msg :: "string \<Rightarrow> string \<Rightarrow> string" where
  "invalid_unicode_msg name err =
     ''Invalid unicode in description for '' @ [CHR 0x27] @ name @ [CHR 0x27] @
     '' ('' @ err @ ''). Please report.''"

definition description :: "string \<Rightarrow> string + string \<Rightarrow> string" where
  "description package_name long_desc =
     (case long_desc of
        Inl err \<Rightarrow> invalid_unicode_msg package_name err
      | Inr dsc \<Rightarrow> format_lines (tl (split_on NL dsc)) [])"

section \<open>apt_pkg.VersionCompare\<close>

text \<open>
  Modelled from the spec: \<^verbatim>\<open>apt_pkg.VersionCompare\<close> is the comparison of the
  binding library and is not part of \<^verbatim>\<open>apt/package.py\<close>. The specification calls it a
  Debian-style version-comparison rule over epoch, upstream version and revision, using
  an alphanumeric and punctuation aware comparison. That rule is: the epoch is the text
  before the first colon, the revision the text after the last hyphen of the rest, and
  the upstream version what lies between; the three parts are compared in this order.
  Each part is read as alternating runs of non-digits and of digits. Non-digit runs are
  compared character by character, where letters sort before other characters, a tilde
  sorts before everything, even the end of the run; digit runs are compared as numbers;
  a run that is missing counts as the empty run or as zero. The result is negative, zero
  or positive (here -1, 0 or 1).
\<close>

definition isdigit :: "char \<Rightarrow> bool" where
  "isdigit c = (48 \<le> (of_char c :: nat) \<and> (of_char c :: nat) \<le> 57)"

definition isalpha :: "char \<Rightarrow> bool" where
  "isalpha c =
     ((65 \<le> (of_char c :: nat) \<and> (of_char c :: nat) \<le> 90) \<or>
      (97 \<le> (of_char c :: nat) \<and> (of_char c :: nat) \<le> 122))"

definition order :: "char \<Rightarrow> int" where
  "order c =
     (if isdigit c then 0
      else if isalpha c then of_char c
      else if c = CHR ''~'' then - 1
      else of_char c + 256)"

definition digits_value :: "string \<Rightarrow> nat" where
  "digits_value ds = foldl (\<lambda>n c. 10 * n + (of_char c - 48)) 0 ds"

text \<open>The alternating runs of a part: each non-digit run with the number that follows it.\<close>

function fragments :: "string \<Rightarrow> (int list \<times> nat) list" where
  "fragments s =
     (if s = [] then []
      else (map order (takeWhile (\<lambda>c. \<not> isdigit c) s),
            digits_value (takeWhile isdigit (dropWhile (\<lambda>c. \<not> isdigit c) s)))
           # fragments (dropWhile isdigit (dropWhile (\<lambda>c. \<not> isdigit c) s)))"
  by pat_completeness auto
termination
proof (relation "measure length")
  show "wf (measure length)" by simp
next
  fix s :: string
  assume "s \<noteq> []"
  then obtain c cs where s: "s = c # cs" by (cases s) auto
  have "length (dropWhile isdigit (dropWhile (\<lambda>c. \<not> isdigit c) s)) < length s"
  proof (cases "isdigit c")
    case True
    have "length (dropWhile isdigit cs) \<le> length cs" by (rule length_dropWhile_le)
    with True s show ?thesis by simp
  next
    case False
    have "length (dropWhile isdigit (dropWhile (\<lambda>c. \<not> isdigit c) cs))
            \<le> length (dropWhile (\<lambda>c. \<not> isdigit c) cs)" by (rule length_dropWhile_le)
    also have "\<dots> \<le> length cs" by (rule length_dropWhile_le)
    finally show ?thesis using False s by simp
  qed
  then show "(dropWhile isdigit (dropWhile (\<lambda>c. \<not> isdigit c) s), s) \<in> measure length"
    by simp
qed

text \<open>
  Comparison of two sequences item by item; the shorter one is continued with the
  default item \<open>d\<close> (the end of a run, a missing run).
\<close>

fun cmp_padded :: "('a \<Rightarrow> 'a \<Rightarrow> int) \<Rightarrow> 'a \<Rightarrow> 'a list \<Rightarrow> 'a list \<Rightarrow> int" where
  "cmp_padded f d [] [] = 0"
| "cmp_padded f d (x # xs) [] = (if f x d \<noteq> 0 then f x d else cmp_padded f d xs [])"
| "cmp_padded f d [] (y # ys) = (if f d y \<noteq> 0 then f d y else cmp_padded f d [] ys)"
| "cmp_padded f d (x # xs) (y # ys) =
     (if f x y \<noteq> 0 then f x y else cmp_padded f d xs ys)"

definition cmp_int :: "int \<Rightarrow> int \<Rightarrow> int" where
  "cmp_int a b = (if a < b then - 1 else if a = b then 0 else 1)"

definition cmp_lexical :: "int list \<Rightarrow> int list \<Rightarrow> int" where
  "cmp_lexical = cmp_padded cmp_int 0"

definition cmp_run :: "int list \<times> nat \<Rightarrow> int list \<times> nat \<Rightarrow> int" where
  "cmp_run a b =
     (if cmp_lexical (fst a) (fst b) \<noteq> 0 then cmp_lexical (fst a) (fst b)
      else cmp_int (int (snd a)) (int (snd b)))"

text \<open>
  Modelled from the spec: the comparison of one part (epoch, upstream version or
  revision) of two version strings.
\<close>

definition CmpFragment :: "string \<Rightarrow> string \<Rightarrow> int" where
  "CmpFragment a b = cmp_padded cmp_run ([], 0) (fragments a) (fragments b)"

definition epoch_of :: "string \<Rightarrow> string" where
  "epoch_of v = (if CHR '':'' \<in> set v then takeWhile (\<lambda>c. c \<noteq> CHR '':'') v else [])"

definition after_epoch :: "string \<Rightarrow> string" where
  "after_epoch v =
     (if CHR '':'' \<in> set v then tl (dropWhile (\<lambda>c. c \<noteq> CHR '':'') v) else v)"

definition revision_of :: "string \<Rightarrow> string" where
  "revision_of v =
     (if CHR ''-'' \<in> set (after_epoch v)
      then rev (takeWhile (\<lambda>c. c \<noteq> CHR ''-'') (rev (after_epoch v))) else [])"

definition upstream_of :: "string \<Rightarrow> string" where
  "upstream_of v =
     (if CHR ''-'' \<in> set (after_epoch v)
      then rev (tl (dropWhile (\<lambda>c. c \<noteq> CHR ''-'') (rev (after_epoch v))))
      else after_epoch v)"

text \<open>
  Modelled from the spec: the comparison of two version strings, by epoch, then upstream
  version, then revision.
\<close>

definition VersionCompare :: "string \<Rightarrow> string \<Rightarrow> int" where
  "VersionCompare a b =
     (if CmpFragment (epoch_of a) (epoch_of b) \<noteq> 0
        then CmpFragment (epoch_of a) (epoch_of b)
      else if CmpFragment (upstream_of a) (upstream_of b) \<noteq> 0
        then CmpFragment (upstream_of a) (upstream_of b)
      else CmpFragment (revision_of a) (revision_of b))"

section \<open>The data model of apt/package.py\<close>

text \<open>
  The objects of the binding library are records of the attributes that
  \<^verbatim>\<open>apt/package.py\<close> reads. \<open>indexfile\<close> is what \<^verbatim>\<open>FindIndex(packagefile)\<close> finds,
  \<open>dep_or\<close> one alternative of an or-group as the library hands it out, \<open>cand\<close> a version
  of the library (\<^verbatim>\<open>Version._cand\<close>) together with what the record store holds for
  it: whether \<^verbatim>\<open>_records.Lookup(FileList[0])\<close> succeeds, and the fields of the record
  that it then shows.
\<close>

datatype error =
    AttributeError | IndexError | KeyError | StopIteration | SystemError
  | UnicodeDecodeError | HTTPError | IOError | BadStatusLine
  | FetchError string string

record indexfile =
  IsTrusted :: bool
  ArchiveBase :: string

record packagefile =
  Archive :: string
  Component :: string
  Label :: string
  Origin :: string
  Site :: string
  NotAutomatic :: bool
  FindIndex :: "indexfile option"

record dep_or =
  TargetPkgName :: string
  CompType :: string
  TargetVer :: string

record cand =
  ID :: nat
  VerStr :: string
  Section :: string
  Size :: nat
  FileList :: "(packagefile \<times> nat) list"
  DependsList :: "string \<rightharpoonup> dep_or list list"
  Records_Lookup :: bool
  SourcePkg :: string
  FileName :: string
  MD5Hash :: string

text \<open>
  A \<^verbatim>\<open>Package\<close>: the name and the installed version of \<^verbatim>\<open>_pkg\<close>, and the candidate
  that the dependency cache reports for it.
\<close>

record Package =
  Name :: string
  CurrentVer :: "cand option"
  GetCandidateVer :: "cand option"

record Version =
  package :: Package
  cand :: cand

record BaseDependency =
  name :: string
  relation :: string
  version :: string
  pre_depend :: bool

record Dependency =
  or_dependencies :: "BaseDependency list"

record Origin =
  archive :: string
  component :: string
  label :: string
  origin :: string
  site :: string
  not_automatic :: bool
  trusted :: bool

definition candidate :: "Package \<Rightarrow> Version option" where
  "candidate self =
     (case GetCandidateVer self of
        None \<Rightarrow> None
      | Some c \<Rightarrow> Some \<lparr>package = self, cand = c\<rparr>)"

definition installed :: "Package \<Rightarrow> Version option" where
  "installed self =
     (case CurrentVer self of
        None \<Rightarrow> None
      | Some c \<Rightarrow> Some \<lparr>package = self, cand = c\<rparr>)"

section \<open>Version: comparison, dependencies, origins\<close>

definition Version_version :: "Version \<Rightarrow> string" where
  "Version_version self = VerStr (cand self)"

definition Version_eq :: "Version \<Rightarrow> Version \<Rightarrow> bool" where
  "Version_eq self other = (ID (cand self) = ID (cand other))"

definition Version_gt :: "Version \<Rightarrow> Version \<Rightarrow> bool" where
  "Version_gt self other =
     (VersionCompare (Version_version self) (Version_version other) > 0)"

definition Version_lt :: "Version \<Rightarrow> Version \<Rightarrow> bool" where
  "Version_lt self other =
     (VersionCompare (Version_version self) (Version_version other) < 0)"

definition Version_ne :: "Version \<Rightarrow> Version \<Rightarrow> bool" where
  "Version_ne self other = (\<not> Version_eq self other)"

text \<open>
  \<^verbatim>\<open>Version.dependencies\<close>: the loop over \<^verbatim>\<open>["PreDepends", "Depends"]\<close>; a key that the
  dictionary lacks raises \<^verbatim>\<open>KeyError\<close>, which the loop passes over.
\<close>

definition BaseDependency_init :: "string \<Rightarrow> string \<Rightarrow> string \<Rightarrow> bool \<Rightarrow> BaseDependency" where
  "BaseDependency_init name' rel ver pre =
     \<lparr>name = name', relation = rel, version = ver, pre_depend = pre\<rparr>"

definition Dependency_init :: "BaseDependency list \<Rightarrow> Dependency" where
  "Dependency_init alternatives = \<lparr>or_dependencies = alternatives\<rparr>"

definition depends_of :: "Version \<Rightarrow> string \<Rightarrow> Dependency list" where
  "depends_of self t =
     (case DependsList (cand self) t of
        None \<Rightarrow> []
      | Some dep_ver_lists \<Rightarrow>
          map (\<lambda>dep_ver_list.
                 Dependency_init
                   (map (\<lambda>dep_or.
                           BaseDependency_init (TargetPkgName dep_or) (CompType dep_or)
                             (TargetVer dep_or) (t = ''PreDepends''))
                        dep_ver_list))
              dep_ver_lists)"

definition dependencies :: "Version \<Rightarrow> Dependency list" where
  "dependencies self = concat (map (depends_of self) [''PreDepends'', ''Depends''])"

definition Origin_init :: "packagefile \<Rightarrow> Origin" where
  "Origin_init pf =
     \<lparr>archive = Archive pf, component = Component pf, label = Label pf,
      origin = Origin pf, site = Site pf, not_automatic = NotAutomatic pf,
      trusted = (case FindIndex pf of None \<Rightarrow> False | Some i \<Rightarrow> IsTrusted i)\<rparr>"

definition origins :: "Version \<Rightarrow> Origin list" where
  "origins self = map (\<lambda>(pf, index). Origin_init pf) (FileList (cand self))"

text \<open>
  \<^verbatim>\<open>Version._records\<close>: taking \<^verbatim>\<open>FileList[0]\<close> raises \<^verbatim>\<open>IndexError\<close> on an empty
  list; when the lookup fails the property is \<^verbatim>\<open>None\<close>, and reading a field of it raises
  \<^verbatim>\<open>AttributeError\<close>. Every use reads a field at once, so the result is the record or
  the error of that read.
\<close>

definition Version_records :: "Version \<Rightarrow> error + cand" where
  "Version_records self =
     (case FileList (cand self) of
        [] \<Rightarrow> Inl IndexError
      | f # _ \<Rightarrow>
          if Records_Lookup (cand self) then Inr (cand self) else Inl AttributeError)"

text \<open>
  \<^verbatim>\<open>Version.source_name\<close>: only the \<^verbatim>\<open>IndexError\<close> of reading the record is caught.
\<close>

definition source_name :: "Version \<Rightarrow> error + string" where
  "source_name self =
     (case Version_records self of
        Inl x \<Rightarrow> if x = IndexError then Inr (Name (package self)) else Inl x
      | Inr records \<Rightarrow>
          Inr (if SourcePkg records \<noteq> [] then SourcePkg records
               else Name (package self)))"

text \<open>
  \<^verbatim>\<open>Version.uri\<close>, the first item of \<^verbatim>\<open>Version._uris()\<close>: the first package file for
  which an index is found gives the URI, built from the file name of the record;
  \<^verbatim>\<open>StopIteration\<close> when there is none.
\<close>

fun indexes :: "(packagefile \<times> nat) list \<Rightarrow> indexfile list" where
  "indexes [] = []"
| "indexes ((pf, index) # fs) =
     (case FindIndex pf of None \<Rightarrow> indexes fs | Some i \<Rightarrow> i # indexes fs)"

definition Version_uri :: "Version \<Rightarrow> error + string" where
  "Version_uri self =
     (case indexes (FileList (cand self)) of
        [] \<Rightarrow> Inl StopIteration
      | indexfile # _ \<Rightarrow>
          (case Version_records self of
             Inl x \<Rightarrow> Inl x
           | Inr records \<Rightarrow> Inr (ArchiveBase indexfile @ FileName records)))"

section \<open>Version.fetch_binary\<close>

text \<open>
  The file system is a map from paths to the size and the MD5 digest of the file there;
  \<^verbatim>\<open>os.path.abspath\<close> depends on the working directory and is a parameter. \<open>Run\<close> is
  the acquisition engine: from the requests queued on it to the items it leaves behind.
  A request is (uri, md5, size, description, destination file).
\<close>

type_synonym request = "string \<times> string \<times> nat \<times> string \<times> string"

record item =
  DestFile :: string
  StatDone :: bool
  ErrorText :: string

record system =
  files :: "string \<rightharpoonup> nat \<times> string"
  abspath :: "string \<Rightarrow> string"
  Run :: "request list \<Rightarrow> item list"

text \<open>What a fetch leaves behind: the requests given to the engine, the lines printed.\<close>

record fetch_world =
  requested :: "request list"
  stdout :: "string list"

definition file_is_same :: "system \<Rightarrow> string \<Rightarrow> nat \<Rightarrow> string \<Rightarrow> bool" where
  "file_is_same sys path size' md5 =
     (case files sys path of
        None \<Rightarrow> False
      | Some (getsize, md5sum) \<Rightarrow> getsize = size' \<and> md5sum = md5)"

definition basename :: "string \<Rightarrow> string" where
  "basename p = rev (takeWhile (\<lambda>c. c \<noteq> CHR ''/'') (rev p))"

definition join :: "string \<Rightarrow> string \<Rightarrow> string" where
  "join a b =
     (if startswith b ''/'' then b
      else if a = [] then b
      else if endswith a ''/'' then a @ b
      else a @ ''/'' @ b)"

fun first_not_done :: "item list \<Rightarrow> item option" where
  "first_not_done [] = None"
| "first_not_done (i # is) = (if StatDone i then first_not_done is else Some i)"

definition fetch_binary ::
  "system \<Rightarrow> Version \<Rightarrow> string \<Rightarrow> fetch_world \<Rightarrow> (error + string option) \<times> fetch_world" where
  "fetch_binary sys self destdir w =
     (case Version_records self of
        Inl x \<Rightarrow> (Inl x, w)
      | Inr records \<Rightarrow>
          (let base = basename (FileName records);
               destfile = join destdir base
           in if file_is_same sys destfile (Size (cand self)) (MD5Hash records) then
                (Inr None,
                 w\<lparr>stdout := stdout w @ [''Ignoring already existing file: '' @ destfile]\<rparr>)
              else
                (case Version_uri self of
                   Inl x \<Rightarrow> (Inl x, w)
                 | Inr uri \<Rightarrow>
                     (let req = (uri, MD5Hash records, Size (cand self), base, destfile);
                          w' = w\<lparr>requested := requested w @ [req]\<rparr>
                      in case first_not_done (Run sys [req]) of
                           Some i \<Rightarrow> (Inl (FetchError (DestFile i) (ErrorText i)), w')
                         | None \<Rightarrow> (Inr (Some (abspath sys destfile)), w')))))"

section \<open>Package.get_changelog\<close>

text \<open>
  A URI template is kept as its pieces: literal text and \<^verbatim>\<open>%(key)s\<close> slots.
  Substituting into it raises \<^verbatim>\<open>KeyError\<close> at the first slot that the dictionary
  lacks.
\<close>

datatype piece = Text string | Subst string

fun substitute :: "piece list \<Rightarrow> (string \<times> string) list \<Rightarrow> error + string" where
  "substitute [] d = Inr []"
| "substitute (Text t # ps) d =
     (case substitute ps d of Inl e \<Rightarrow> Inl e | Inr r \<Rightarrow> Inr (t @ r))"
| "substitute (Subst k # ps) d =
     (case map_of d k of
        None \<Rightarrow> Inl KeyError
      | Some v \<Rightarrow> (case substitute ps d of Inl e \<Rightarrow> Inl e | Inr r \<Rightarrow> Inr (v @ r)))"

definition debian_uri :: "piece list" where
  "debian_uri =
     [Text ''http://packages.debian.org/changelogs/pool/'', Subst ''src_section'',
      Text ''/'', Subst ''prefix'', Text ''/'', Subst ''src_pkg'', Text ''/'',
      Subst ''src_pkg'', Text ''_'', Subst ''src_ver'', Text ''/changelog'']"

definition ubuntu_uri :: "piece list" where
  "ubuntu_uri =
     [Text ''http://changelogs.ubuntu.com/changelogs/pool/'', Subst ''src_section'',
      Text ''/'', Subst ''prefix'', Text ''/'', Subst ''src_pkg'', Text ''/'',
      Subst ''src_pkg'', Text ''_'', Subst ''src_ver'', Text ''/changelog'']"

text \<open>The messages, as gettext gives them without a catalogue.\<close>

definition not_available :: string where
  "not_available = ''The list of changes is not available''"

definition not_available_yet :: "string \<Rightarrow> string \<Rightarrow> string" where
  "not_available_yet src_pkg src_ver =
     ''The list of changes is not available yet.'' @ [NL, NL] @
     ''Please use http://launchpad.net/ubuntu/+source/'' @ src_pkg @ ''/'' @ src_ver @
     ''/+changelog'' @ [NL] @
     ''until the changes become available or try again later.''"

definition failed_to_download :: string where
  "failed_to_download =
     ''Failed to download the list of changes. '' @ [NL] @
     ''Please check your Internet connection.''"

text \<open>
  The network and the source records, as this method meets them. \<open>Lookup\<close> is
  \<^verbatim>\<open>apt_pkg.SourceRecords().Lookup(src_pkg)\<close> with the version and section it then
  shows; \<open>urlopen\<close> either raises or opens a stream, whose reads are events: a raw line
  that decodes as UTF-8 to the text given, a raw line that does not, or a read that
  raises. After the last event \<^verbatim>\<open>readline\<close> returns the empty string.
\<close>

datatype lookup = LookupRaises | NotFound | Found string string

datatype read_event = Line string | Undecodable | ReadRaises error

datatype urlopen_result = Raises error | Response "read_event list"

record env =
  Lookup :: "string \<Rightarrow> lookup"
  urlopen :: "string \<Rightarrow> urlopen_result"

text \<open>
  What the method can change: the changelog cached in the \<^verbatim>\<open>Package\<close> (its \<^verbatim>\<open>_changelog\<close>), the default
  timeout of the socket module, and the URIs opened so far.
\<close>

record world =
  Package_changelog :: string
  defaulttimeout :: "real option"
  opened :: "string list"

text \<open>How a block of statements ends: it runs through, it returns, or it raises.\<close>

datatype 'a flow = Continue 'a | Return string | Raise error

text \<open>\<^verbatim>\<open>cancel_lock and cancel_lock.isSet()\<close> at the \<open>k\<close>-th time it is asked.\<close>

definition isSet :: "(nat \<Rightarrow> bool) option \<Rightarrow> nat \<Rightarrow> bool" where
  "isSet cancel_lock k = (case cancel_lock of None \<Rightarrow> False | Some c \<Rightarrow> c k)"

text \<open>
  \<^verbatim>\<open>re.match("^%s \((.*)\)(.*)$" % re.escape(src_pkg), line)\<close>: the line starts with the
  source name, a space and an opening parenthesis; what follows, up to the end of the
  line or to the newline that ends it, holds no other newline and at least one closing
  parenthesis. The first group is greedy: it reaches to the last closing parenthesis.
  The result is the pair of the two groups.
\<close>

definition match_header :: "string \<Rightarrow> string \<Rightarrow> (string \<times> string) option" where
  "match_header src_pkg line =
     (if startswith line (src_pkg @ '' ('') then
        (let rest = drop (length (src_pkg @ '' ('')) line;
             body = (if endswith rest [NL] then butlast rest else rest)
         in if NL \<in> set body then None
            else if CHR '')'' \<in> set body then
              Some (rev (tl (dropWhile (\<lambda>c. c \<noteq> CHR '')'') (rev body))),
                    rev (takeWhile (\<lambda>c. c \<noteq> CHR '')'') (rev body)))
            else None)
      else None)"

text \<open>\<^verbatim>\<open>v.split(":", 1)[1]\<close> when \<open>v\<close> is not empty and holds a colon.\<close>

definition strip_epoch :: "string \<Rightarrow> string" where
  "strip_epoch v =
     (if v \<noteq> [] \<and> CHR '':'' \<in> set v then split_once CHR '':'' v ! 1 else v)"

text \<open>
  The test of the loop at a line: the header matches, and the installed version, with
  its epoch stripped, is there, not empty, and not below the version of the entry.
\<close>

definition stops_at :: "string option \<Rightarrow> string \<Rightarrow> string \<Rightarrow> bool" where
  "stops_at installed_version src_pkg line =
     (case match_header src_pkg line of
        None \<Rightarrow> False
      | Some (group1, group2) \<Rightarrow>
          (case installed_version of
             None \<Rightarrow> False
           | Some v \<Rightarrow>
               strip_epoch v \<noteq> [] \<and>
               VersionCompare (strip_epoch group1) (strip_epoch v) \<le> 0))"

text \<open>
  The \<^verbatim>\<open>while True\<close> loop: \<open>k\<close> counts the questions to the cancel lock, the last
  argument is the changelog read so far.
\<close>

fun read_lines ::
  "(nat \<Rightarrow> bool) option \<Rightarrow> string option \<Rightarrow> string \<Rightarrow> nat \<Rightarrow> read_event list \<Rightarrow> string
     \<Rightarrow> string flow" where
  "read_lines cancel_lock inst src_pkg k [] changelog =
     (if isSet cancel_lock k then Return [] else Continue changelog)"
| "read_lines cancel_lock inst src_pkg k (ev # evs) changelog =
     (if isSet cancel_lock k then Return []
      else case ev of
             ReadRaises e \<Rightarrow> Raise e
           | Undecodable \<Rightarrow> Raise UnicodeDecodeError
           | Line line \<Rightarrow>
               if line = [] then Continue changelog
               else if stops_at inst src_pkg line then Continue changelog
               else read_lines cancel_lock inst src_pkg (Suc k) evs (changelog @ line))"

text \<open>The two \<^verbatim>\<open>except\<close> clauses of the inner \<^verbatim>\<open>try\<close>.\<close>

definition handlers :: "string \<Rightarrow> string \<Rightarrow> error \<Rightarrow> unit flow" where
  "handlers src_pkg src_ver e =
     (if e = HTTPError then Return (not_available_yet src_pkg src_ver)
      else if e = IOError \<or> e = BadStatusLine then Return failed_to_download
      else Raise e)"

text \<open>
  The inner \<^verbatim>\<open>try\<close>: the timeout is set, the lock asked, the URI opened, the lines
  read, the result stored in the cache.
\<close>

definition download ::
  "env \<Rightarrow> (nat \<Rightarrow> bool) option \<Rightarrow> string option \<Rightarrow> string \<Rightarrow> string \<Rightarrow> string \<Rightarrow> world
     \<Rightarrow> unit flow \<times> world" where
  "download e cancel_lock inst src_pkg src_ver uri w =
     (let w1 = w\<lparr>defaulttimeout := Some 2\<rparr>
      in if isSet cancel_lock 0 then (Return [], w1)
         else
           (let w2 = w1\<lparr>opened := opened w1 @ [uri]\<rparr>
            in case urlopen e uri of
                 Raises err \<Rightarrow> (handlers src_pkg src_ver err, w2)
               | Response evs \<Rightarrow>
                   (case read_lines cancel_lock inst src_pkg 1 evs [] of
                      Continue c \<Rightarrow>
                        (Continue (),
                         w2\<lparr>Package_changelog := (if length c = 0 then not_available else c)\<rparr>)
                    | Return r \<Rightarrow> (Return r, w2)
                    | Raise err \<Rightarrow> (handlers src_pkg src_ver err, w2))))"

text \<open>
  Everything before the timeout is touched: the template, the source name, version and
  section, the prefix, the epoch, the substitution. It yields the source name, the
  version without epoch and the URI.
\<close>

definition select_uri :: "Version \<Rightarrow> piece list option \<Rightarrow> piece list flow" where
  "select_uri c uri =
     (case uri of
        Some u \<Rightarrow> Continue u
      | None \<Rightarrow>
          (case origins c of
             [] \<Rightarrow> Raise IndexError
           | o1 # _ \<Rightarrow>
               if origin o1 = ''Debian'' then Continue debian_uri
               else if origin o1 = ''Ubuntu'' then Continue ubuntu_uri
               else Return not_available))"

definition url_src_ver :: "string \<Rightarrow> string" where
  "url_src_ver src_ver =
     (let l = split_on CHR '':'' src_ver
      in if length l > 1 then concat (tl l) else src_ver)"

definition prepare ::
  "env \<Rightarrow> Package \<Rightarrow> piece list option \<Rightarrow> (string \<times> string \<times> string) flow" where
  "prepare e self uri =
     (case candidate self of
        None \<Rightarrow> Raise AttributeError
      | Some c \<Rightarrow>
          (case select_uri c uri of
             Raise x \<Rightarrow> Raise x
           | Return r \<Rightarrow> Return r
           | Continue u \<Rightarrow>
               (case source_name c of
                  Inl x \<Rightarrow> Raise x
                | Inr src_pkg \<Rightarrow>
                    (let bin_ver = Version_version c;
                         found = (case Lookup e src_pkg of
                                    Found ver sec \<Rightarrow>
                                      (if ver = [] then bin_ver else ver, sec)
                                  | NotFound \<Rightarrow> (bin_ver, Section (cand c))
                                  | LookupRaises \<Rightarrow> (bin_ver, Section (cand c)));
                         l = split_on CHR ''/'' (snd found);
                         src_section = (if length l > 1 then hd l else ''main'')
                     in if src_pkg = [] then Raise IndexError
                        else if startswith src_pkg ''lib'' \<and> length src_pkg \<le> 3
                          then Raise IndexError
                        else
                          (let prefix = (if startswith src_pkg ''lib''
                                         then ''lib'' @ [src_pkg ! 3] else [hd src_pkg]);
                               src_ver = url_src_ver (fst found)
                           in case substitute u
                                     [(''src_section'', src_section), (''prefix'', prefix),
                                      (''src_pkg'', src_pkg), (''src_ver'', src_ver)] of
                                Inl x \<Rightarrow> Raise x
                              | Inr s \<Rightarrow> Continue (src_pkg, src_ver, s))))))"

definition installed_version :: "Package \<Rightarrow> string option" where
  "installed_version self =
     (case installed self of None \<Rightarrow> None | Some v \<Rightarrow> Some (Version_version v))"

text \<open>
  The method: the cached changelog, or the preparation, the saved timeout, the inner
  \<^verbatim>\<open>try\<close>, and the \<^verbatim>\<open>finally\<close> that puts the timeout back on every way out.
\<close>

definition get_changelog ::
  "env \<Rightarrow> Package \<Rightarrow> piece list option \<Rightarrow> (nat \<Rightarrow> bool) option \<Rightarrow> world
     \<Rightarrow> (error + string) \<times> world" where
  "get_changelog e self uri cancel_lock w =
     (if Package_changelog w \<noteq> [] then (Inr (Package_changelog w), w)
      else case prepare e self uri of
             Raise x \<Rightarrow> (Inl x, w)
           | Return r \<Rightarrow> (Inr r, w)
           | Continue (src_pkg, src_ver, s) \<Rightarrow>
               (let timeout = defaulttimeout w;
                    (fl, w') = download e cancel_lock (installed_version self)
                                 src_pkg src_ver s w;
                    w'' = w'\<lparr>defaulttimeout := timeout\<rparr>
                in case fl of
                     Raise x \<Rightarrow> (Inl x, w'')
                   | Return r \<Rightarrow> (Inr r, w'')
                   | Continue u \<Rightarrow> (Inr (Package_changelog w''), w'')))"

section \<open>Package.mark_delete\<close>

text \<open>
  The dependency cache and its problem resolver are outside this module. \<open>'d\<close> is the
  state of the cache; the resolver gets the directives given to it before
  \<^verbatim>\<open>Resolve()\<close> and either returns its verdict or raises, and leaves a cache behind in
  both cases. The cache of the Python layer records the notifications it was sent.
\<close>

datatype directive = Clear string | Protect string | Remove string | InstallProtect

datatype notification = cache_pre_change | cache_post_change

record 'd engine =
  MarkDelete :: "string \<Rightarrow> bool \<Rightarrow> 'd \<Rightarrow> 'd"
  BrokenCount :: "'d \<Rightarrow> nat"
  Resolve :: "directive list \<Rightarrow> 'd \<Rightarrow> (error + bool) \<times> 'd"

record 'd pcache =
  depcache :: 'd
  notifications :: "notification list"

definition mark_delete ::
  "'d engine \<Rightarrow> Package \<Rightarrow> bool \<Rightarrow> bool \<Rightarrow> 'd pcache \<Rightarrow> (error + unit) \<times> 'd pcache" where
  "mark_delete eng self auto_fix purge pc =
     (let pc1 = pc\<lparr>notifications := notifications pc @ [cache_pre_change]\<rparr>;
          pc2 = pc1\<lparr>depcache := MarkDelete eng (Name self) purge (depcache pc1)\<rparr>
      in if auto_fix \<and> BrokenCount eng (depcache pc2) > 0 then
           (case Resolve eng [Clear (Name self), Protect (Name self), Remove (Name self),
                              InstallProtect] (depcache pc2) of
              (Inl x, d) \<Rightarrow> (Inl x, pc2\<lparr>depcache := d\<rparr>)
            | (Inr res, d) \<Rightarrow>
                (Inr (),
                 pc2\<lparr>depcache := d,
                     notifications := notifications pc2 @ [cache_post_change]\<rparr>))
         else
           (Inr (), pc2\<lparr>notifications := notifications pc2 @ [cache_post_change]\<rparr>))"

section \<open>Notions used in the proofs\<close>

text \<open>
  A three-way comparison is a comparator when swapping its arguments negates the result
  and the relation "not above" is transitive.
\<close>

definition comparator :: "('a \<Rightarrow> 'a \<Rightarrow> int) \<Rightarrow> bool" where
  "comparator f =
     ((\<forall>x y. f y x = - f x y) \<and>
      (\<forall>x y z. f x y \<le> 0 \<longrightarrow> f y z \<le> 0 \<longrightarrow> f x z \<le> 0))"

definition hd_or :: "'a \<Rightarrow> 'a list \<Rightarrow> 'a" where
  "hd_or d xs = (case xs of [] \<Rightarrow> d | x # _ \<Rightarrow> x)"


definition exactly_one :: "bool \<Rightarrow> bool \<Rightarrow> bool \<Rightarrow> bool" where
  "exactly_one p q r = ((p \<and> \<not> q \<and> \<not> r) \<or> (\<not> p \<and> q \<and> \<not> r) \<or> (\<not> p \<and> \<not> q \<and> r))"

text \<open>The or-groups that the library lists under a key; none when the key is missing.\<close>

definition or_groups :: "Version \<Rightarrow> string \<Rightarrow> dep_or list list" where
  "or_groups self t = (case DependsList (cand self) t of None \<Rightarrow> [] | Some g \<Rightarrow> g)"

definition group_of :: "bool \<Rightarrow> dep_or list \<Rightarrow> Dependency" where
  "group_of pre g =
     Dependency_init
       (map (\<lambda>d. BaseDependency_init (TargetPkgName d) (CompType d) (TargetVer d) pre) g)"








section \<open>Concrete inputs\<close>

definition unstable :: packagefile where
  "unstable =
     \<lparr>Archive = ''unstable'', Component = ''main'', Label = ''Debian'',
      Origin = ''Debian'', Site = ''ftp.debian.org'', NotAutomatic = False,
      FindIndex = Some \<lparr>IsTrusted = True, ArchiveBase = ''http://ftp.debian.org/debian/''\<rparr>\<rparr>"

definition dep :: "string \<Rightarrow> string \<Rightarrow> string \<Rightarrow> dep_or" where
  "dep n rel ver = \<lparr>TargetPkgName = n, CompType = rel, TargetVer = ver\<rparr>"

definition apt_utils_depends :: "string \<rightharpoonup> dep_or list list" where
  "apt_utils_depends =
     [''Depends'' \<mapsto> [[dep ''libc6'' ''>='' ''2.7''], [dep ''apt'' ''='' ''1.2'', dep ''aptitude'' [] []]],
      ''PreDepends'' \<mapsto> [[dep ''dpkg'' ''>='' ''1.14'']]]"

definition mk_cand :: "nat \<Rightarrow> string \<Rightarrow> cand" where
  "mk_cand ident ver =
     \<lparr>ID = ident, VerStr = ver, Section = ''admin'', Size = 1024,
      FileList = [(unstable, 0)], DependsList = apt_utils_depends,
      Records_Lookup = True, SourcePkg = ''apt'', FileName = ''pool/main/a/apt/apt-utils_'' @ ver @ ''_amd64.deb'',
      MD5Hash = ''0123456789abcdef0123456789abcdef''\<rparr>"

definition apt_utils :: Package where
  "apt_utils =
     \<lparr>Name = ''apt-utils'', CurrentVer = Some (mk_cand 1 ''1.0''),
      GetCandidateVer = Some (mk_cand 2 ''1.2'')\<rparr>"

definition ver :: "nat \<Rightarrow> string \<Rightarrow> Version" where
  "ver ident v = \<lparr>package = apt_utils, cand = mk_cand ident v\<rparr>"

text \<open>
  A changelog of the source package \<^verbatim>\<open>apt\<close> with entries for 1.2, 1.1, 1.0 and 0.9, its
  parts, and a network that serves it.
\<close>

definition entry_1_2 :: "string list" where
  "entry_1_2 =
     [''apt (1.2) unstable; urgency=low'' @ [NL], [NL],
      ''  * Third change (closes: #3)'' @ [NL], [NL]]"

definition entry_1_1 :: "string list" where
  "entry_1_1 =
     [''apt (1.1) unstable; urgency=low'' @ [NL], [NL],
      ''  * Second change'' @ [NL], [NL]]"

definition entry_1_0 :: "string list" where
  "entry_1_0 =
     [''apt (1.0) unstable; urgency=low'' @ [NL], [NL],
      ''  * First change'' @ [NL], [NL]]"

definition entry_0_9 :: "string list" where
  "entry_0_9 =
     [''apt (0.9) unstable; urgency=low'' @ [NL], [NL],
      ''  * Initial release'' @ [NL]]"

definition changelog_stream :: "string list" where
  "changelog_stream = entry_1_2 @ entry_1_1 @ entry_1_0 @ entry_0_9"

definition changelog_uri :: string where
  "changelog_uri = ''http://packages.debian.org/changelogs/pool/main/a/apt/apt_1.2/changelog''"

definition network :: env where
  "network =
     \<lparr>Lookup = (\<lambda>src_pkg. NotFound),
      urlopen = (\<lambda>uri. if uri = changelog_uri then Response (map Line changelog_stream)
                        else Raises HTTPError)\<rparr>"

definition broken_network :: env where
  "broken_network =
     \<lparr>Lookup = (\<lambda>src_pkg. NotFound),
      urlopen = (\<lambda>uri. Response [Line (hd entry_1_2), Undecodable])\<rparr>"

definition fresh :: world where
  "fresh = \<lparr>Package_changelog = [], defaulttimeout = Some 30, opened = []\<rparr>"

text \<open>
  A version without its epoch: the text after the first colon, or the whole text when it
  holds no colon.
\<close>

definition epoch_stripped :: "string \<Rightarrow> string" where
  "epoch_stripped v =
     (if CHR '':'' \<in> set v then drop (Suc (length (takeWhile (\<lambda>c. c \<noteq> CHR '':'') v))) v
      else v)"

text \<open>
  A header line of the source package whose version, without its epoch, is not above the
  version \<open>v\<close> without its epoch.
\<close>

definition header_not_above :: "string \<Rightarrow> string \<Rightarrow> string \<Rightarrow> bool" where
  "header_not_above v src_pkg line =
     (case match_header src_pkg line of
        None \<Rightarrow> False
      | Some (group1, group2) \<Rightarrow>
          VersionCompare (epoch_stripped group1) (epoch_stripped v) \<le> 0)"






text \<open>The same package before it is installed, and cancel locks.\<close>

definition apt_utils_new :: Package where
  "apt_utils_new = apt_utils\<lparr>CurrentVer := None\<rparr>"

definition set_from :: "nat \<Rightarrow> nat \<Rightarrow> bool" where
  "set_from n k = (n \<le> k)"

text \<open>
  A disk that holds the package file of version 1.2 with the size and digest of the
  record, a disk that does not, and an acquisition engine that fetches every request.
\<close>

definition fetch_all :: "request list \<Rightarrow> item list" where
  "fetch_all reqs =
     map (\<lambda>(uri, md5, sz, descr, destfile).
            \<lparr>DestFile = destfile, StatDone = True, ErrorText = []\<rparr>) reqs"

definition disk_with_file :: system where
  "disk_with_file =
     \<lparr>files = [''/var/tmp/apt-utils_1.2_amd64.deb'' \<mapsto>
                 (1024, ''0123456789abcdef0123456789abcdef'')],
      abspath = (\<lambda>p. p), Run = fetch_all\<rparr>"

definition empty_disk :: system where
  "empty_disk = \<lparr>files = Map.empty, abspath = (\<lambda>p. p), Run = fetch_all\<rparr>"

definition nothing_fetched :: fetch_world where
  "nothing_fetched = \<lparr>requested = [], stdout = []\<rparr>"

text \<open>
  Dependency caches that count their broken packages, where every removal breaks one
  more; one resolver raises, the other returns that it could not resolve.
\<close>

definition raising_engine :: "nat engine" where
  "raising_engine =
     \<lparr>MarkDelete = (\<lambda>pkg purge d. Suc d), BrokenCount = (\<lambda>d. d),
      Resolve = (\<lambda>dirs d. (Inl SystemError, d))\<rparr>"

definition giving_up_engine :: "nat engine" where
  "giving_up_engine =
     \<lparr>MarkDelete = (\<lambda>pkg purge d. Suc d), BrokenCount = (\<lambda>d. d),
      Resolve = (\<lambda>dirs d. (Inr False, d))\<rparr>"

definition untouched :: "nat pcache" where
  "untouched = \<lparr>depcache = 0, notifications = []\<rparr>"

definition apt_utils_epoch :: Package where
  "apt_utils_epoch = apt_utils\<lparr>GetCandidateVer := Some (mk_cand 4 ''1:2:3'')\<rparr>"

section \<open>The version comparison is a total preorder\<close>

lemma comparator_refl: "comparator f \<Longrightarrow> f x x = 0"
  unfolding comparator_def by (metis equal_neg_zero)

lemma comparator_sym: "comparator f \<Longrightarrow> f y x = - f x y"
  unfolding comparator_def by blast

lemma comparator_trans: "comparator f \<Longrightarrow> f x y \<le> 0 \<Longrightarrow> f y z \<le> 0 \<Longrightarrow> f x z \<le> 0"
  unfolding comparator_def by blast

lemma comparator_less_le:
  assumes c: "comparator f" and xy: "f x y < 0" and yz: "f y z \<le> 0"
  shows "f x z < 0"
proof (rule ccontr)
  assume "\<not> f x z < 0"
  moreover have "f x z \<le> 0" using comparator_trans[OF c _ yz] xy by simp
  ultimately have "f x z = 0" by simp
  then have "f z x \<le> 0" using comparator_sym[OF c, of z x] by simp
  from comparator_trans[OF c yz this] have "f y x \<le> 0" .
  then show False using comparator_sym[OF c, of y x] xy by simp
qed

lemma comparator_le_less:
  assumes c: "comparator f" and xy: "f x y \<le> 0" and yz: "f y z < 0"
  shows "f x z < 0"
proof (rule ccontr)
  assume "\<not> f x z < 0"
  moreover have "f x z \<le> 0" using comparator_trans[OF c xy] yz by simp
  ultimately have "f x z = 0" by simp
  then have "f z x \<le> 0" using comparator_sym[OF c, of z x] by simp
  from comparator_trans[OF c this xy] have "f z y \<le> 0" .
  then show False using comparator_sym[OF c, of z y] yz by simp
qed

lemma comparator_cmp_int: "comparator cmp_int"
  unfolding comparator_def cmp_int_def by auto

lemma cmp_padded_step:
  assumes "f d d = 0"
  shows "cmp_padded f d xs ys =
     (if f (hd_or d xs) (hd_or d ys) \<noteq> 0 then f (hd_or d xs) (hd_or d ys)
      else cmp_padded f d (tl xs) (tl ys))"
  using assms by (cases xs; cases ys) (simp_all add: hd_or_def)

lemma cmp_padded_sym:
  "comparator f \<Longrightarrow> cmp_padded f d ys xs = - cmp_padded f d xs ys"
proof (induction f d xs ys rule: cmp_padded.induct)
  case (1 f d)
  then show ?case by simp
next
  case (2 f d x xs)
  have "f d x = - f x d" using comparator_sym[OF 2(2)] .
  with 2 show ?case by simp
next
  case (3 f d y ys)
  have "f y d = - f d y" using comparator_sym[OF 3(2)] .
  with 3 show ?case by simp
next
  case (4 f d x xs y ys)
  have "f y x = - f x y" using comparator_sym[OF 4(2)] .
  with 4 show ?case by simp
qed

lemma cmp_padded_trans:
  assumes c: "comparator f"
  shows "cmp_padded f d xs ys \<le> 0 \<Longrightarrow> cmp_padded f d ys zs \<le> 0
         \<Longrightarrow> cmp_padded f d xs zs \<le> 0"
proof (induction "length xs + length ys + length zs" arbitrary: xs ys zs rule: less_induct)
  case less
  have dd: "f d d = 0" by (rule comparator_refl[OF c])
  show ?case
  proof (cases "xs = [] \<and> ys = [] \<and> zs = []")
    case True
    then show ?thesis by simp
  next
    case False
    then have len: "length (tl xs) + length (tl ys) + length (tl zs)
                    < length xs + length ys + length zs"
      by (cases xs; cases ys; cases zs) auto
    define x y z where "x = hd_or d xs" and "y = hd_or d ys" and "z = hd_or d zs"
    have xy: "cmp_padded f d xs ys = (if f x y \<noteq> 0 then f x y else cmp_padded f d (tl xs) (tl ys))"
      unfolding x_def y_def using dd by (rule cmp_padded_step)
    have yz: "cmp_padded f d ys zs = (if f y z \<noteq> 0 then f y z else cmp_padded f d (tl ys) (tl zs))"
      unfolding z_def y_def using dd by (rule cmp_padded_step)
    have xz: "cmp_padded f d xs zs = (if f x z \<noteq> 0 then f x z else cmp_padded f d (tl xs) (tl zs))"
      unfolding x_def z_def using dd by (rule cmp_padded_step)
    have fxy: "f x y \<le> 0" using less.prems(1) xy by (auto split: if_splits)
    have fyz: "f y z \<le> 0" using less.prems(2) yz by (auto split: if_splits)
    show ?thesis
    proof (cases "f x y < 0 \<or> f y z < 0")
      case True
      then have "f x z < 0"
        using comparator_less_le[OF c _ fyz, of x] comparator_le_less[OF c fxy, of z] by blast
      then show ?thesis using xz by simp
    next
      case False
      then have e1: "f x y = 0" and e2: "f y z = 0" using fxy fyz by auto
      have "f x z \<le> 0" using comparator_trans[OF c fxy fyz] .
      moreover have "f z x \<le> 0"
        using comparator_trans[OF c, of z y x] e1 e2 comparator_sym[OF c, of z y] comparator_sym[OF c, of y x] by simp
      ultimately have e3: "f x z = 0" using comparator_sym[OF c, of z x] by simp
      have "cmp_padded f d (tl xs) (tl zs) \<le> 0"
        using less.hyps[OF len] less.prems xy yz e1 e2 by simp
      then show ?thesis using xz e3 by simp
    qed
  qed
qed

lemma comparator_cmp_padded:
  assumes c: "comparator f"
  shows "comparator (cmp_padded f d)"
  unfolding comparator_def[of "cmp_padded f d"]
proof (intro conjI allI impI)
  fix x y show "cmp_padded f d y x = - cmp_padded f d x y"
    by (rule cmp_padded_sym[OF c])
next
  fix x y z
  assume "cmp_padded f d x y \<le> 0" and "cmp_padded f d y z \<le> 0"
  then show "cmp_padded f d x z \<le> 0" by (rule cmp_padded_trans[OF c])
qed

lemma comparator_lex2:
  assumes f: "comparator f" and g: "comparator g"
  shows "comparator (\<lambda>a b. if f (p a) (p b) \<noteq> 0 then f (p a) (p b) else g (q a) (q b))"
  unfolding comparator_def
proof (intro conjI allI impI)
  fix x y
  show "(if f (p y) (p x) \<noteq> 0 then f (p y) (p x) else g (q y) (q x)) =
        - (if f (p x) (p y) \<noteq> 0 then f (p x) (p y) else g (q x) (q y))"
    using comparator_sym[OF f, of "p y" "p x"] comparator_sym[OF g, of "q y" "q x"] by simp
next
  fix x y z
  assume a: "(if f (p x) (p y) \<noteq> 0 then f (p x) (p y) else g (q x) (q y)) \<le> 0"
     and b: "(if f (p y) (p z) \<noteq> 0 then f (p y) (p z) else g (q y) (q z)) \<le> 0"
  have fxy: "f (p x) (p y) \<le> 0" using a by (auto split: if_splits)
  have fyz: "f (p y) (p z) \<le> 0" using b by (auto split: if_splits)
  show "(if f (p x) (p z) \<noteq> 0 then f (p x) (p z) else g (q x) (q z)) \<le> 0"
  proof (cases "f (p x) (p y) < 0 \<or> f (p y) (p z) < 0")
    case True
    then have "f (p x) (p z) < 0"
      using comparator_less_le[OF f _ fyz, of "p x"] comparator_le_less[OF f fxy, of "p z"] by blast
    then show ?thesis by simp
  next
    case False
    then have e1: "f (p x) (p y) = 0" and e2: "f (p y) (p z) = 0" using fxy fyz by auto
    have "f (p x) (p z) \<le> 0" using comparator_trans[OF f fxy fyz] .
    moreover have "g (q x) (q z) \<le> 0"
      using comparator_trans[OF g, of "q x" "q y" "q z"] a b e1 e2 by simp
    ultimately show ?thesis by simp
  qed
qed

lemma comparator_cmp_lexical: "comparator cmp_lexical"
  unfolding cmp_lexical_def by (rule comparator_cmp_padded[OF comparator_cmp_int])

lemma comparator_cmp_run: "comparator cmp_run"
proof -
  have "comparator (\<lambda>a b. if cmp_lexical (fst a) (fst b) \<noteq> 0 then cmp_lexical (fst a) (fst b)
            else cmp_int (int (snd a)) (int (snd b)))"
    by (rule comparator_lex2[OF comparator_cmp_lexical comparator_cmp_int, of fst "\<lambda>a. int (snd a)"])
  moreover have "cmp_run = (\<lambda>a b. if cmp_lexical (fst a) (fst b) \<noteq> 0 then cmp_lexical (fst a) (fst b)
            else cmp_int (int (snd a)) (int (snd b)))"
    by (intro ext) (simp add: cmp_run_def)
  ultimately show ?thesis by simp
qed

lemma comparator_CmpFragment: "comparator CmpFragment"
proof -
  have c: "comparator (cmp_padded cmp_run ([], 0))"
    by (rule comparator_cmp_padded[OF comparator_cmp_run])
  show ?thesis
    unfolding comparator_def CmpFragment_def
    using comparator_sym[OF c] comparator_trans[OF c] by blast
qed

lemma comparator_VersionCompare: "comparator VersionCompare"
proof -
  let ?g = "\<lambda>a b. if CmpFragment (upstream_of a) (upstream_of b) \<noteq> 0
        then CmpFragment (upstream_of a) (upstream_of b)
      else CmpFragment (revision_of a) (revision_of b)"
  have g: "comparator ?g"
    by (rule comparator_lex2[OF comparator_CmpFragment comparator_CmpFragment])
  have "comparator (\<lambda>a b. if CmpFragment (epoch_of a) (epoch_of b) \<noteq> 0
        then CmpFragment (epoch_of a) (epoch_of b) else ?g ((\<lambda>x. x) a) ((\<lambda>x. x) b))"
    by (rule comparator_lex2[OF comparator_CmpFragment g])
  moreover have "VersionCompare = (\<lambda>a b. if CmpFragment (epoch_of a) (epoch_of b) \<noteq> 0
        then CmpFragment (epoch_of a) (epoch_of b) else ?g a b)"
    by (intro ext) (simp add: VersionCompare_def)
  ultimately show ?thesis by simp
qed

section \<open>Properties of Version.description\<close>

lemma split_on_not_Nil: "split_on c s \<noteq> []"
  by (cases s) (simp_all split: list.splits)

lemma split_on_first:
  "c \<notin> set first \<Longrightarrow> split_on c (first @ c # rest) = first # split_on c rest"
proof (induction first)
  case Nil
  show ?case by simp
next
  case (Cons a first)
  then have "a \<noteq> c" and "c \<notin> set first" by auto
  then show ?case using Cons.IH by simp
qed

lemma split_on_no_separator: "c \<notin> set v \<Longrightarrow> split_on c v = [v]"
  by (induction v) auto

subsection \<open>The tests of the loop and the kinds of lines\<close>








subsection \<open>The formatted description\<close>




section \<open>The order of versions\<close>

lemma VersionCompare_refl: "VersionCompare a a = 0"
  by (rule comparator_refl [OF comparator_VersionCompare])

lemma VersionCompare_sym: "VersionCompare b a = - VersionCompare a b"
  by (rule comparator_sym [OF comparator_VersionCompare])

lemma VersionCompare_less_trans:
  "VersionCompare a b < 0 \<Longrightarrow> VersionCompare b c < 0 \<Longrightarrow> VersionCompare a c < 0"
  using comparator_less_le [OF comparator_VersionCompare, of a b c] by simp

lemma VersionCompare_greater_trans:
  assumes "VersionCompare a b > 0" and "VersionCompare b c > 0"
  shows "VersionCompare a c > 0"
proof -
  have "VersionCompare c b < 0" and "VersionCompare b a < 0"
    using assms VersionCompare_sym [of c b] VersionCompare_sym [of b a] by simp_all
  then have "VersionCompare c a < 0" by (rule VersionCompare_less_trans)
  then show ?thesis using VersionCompare_sym [of c a] by simp
qed

lemma VersionCompare_equal_trans:
  assumes "VersionCompare a b = 0" and "VersionCompare b c = 0"
  shows "VersionCompare a c = 0"
proof -
  have "VersionCompare a c \<le> 0"
    using comparator_trans [OF comparator_VersionCompare, of a b c] assms by simp
  moreover have "VersionCompare c a \<le> 0"
    using comparator_trans [OF comparator_VersionCompare, of c b a] assms
      VersionCompare_sym [of c b] VersionCompare_sym [of b a] by simp
  ultimately show ?thesis using VersionCompare_sym [of c a] by simp
qed

text \<open>
  C2, as the code has it. \<^verbatim>\<open>__eq__\<close> compares the identity of the tokens,
  \<^verbatim>\<open>__lt__\<close> and \<^verbatim>\<open>__gt__\<close> compare the version strings. Two tokens of a package that
  differ and carry the same version string are neither below, equal to, nor above each
  other.
\<close>

theorem Version_trichotomy_counterexample:
  "package (ver 1 ''1.0'') = package (ver 3 ''1.0'') \<and>
   \<not> exactly_one (Version_lt (ver 1 ''1.0'') (ver 3 ''1.0''))
                   (Version_eq (ver 1 ''1.0'') (ver 3 ''1.0''))
                   (Version_gt (ver 1 ''1.0'') (ver 3 ''1.0''))"
  by (simp add: exactly_one_def Version_lt_def Version_gt_def Version_eq_def
        Version_version_def ver_def mk_cand_def VersionCompare_refl)

text \<open>
  C2, amended. For every pair of versions whose tokens are the same exactly when their
  version strings compare equal, exactly one of \<open>a < b\<close>, \<open>a == b\<close>, \<open>a > b\<close> holds.
  For all versions each of \<open><\<close>, \<open>==\<close> and \<open>>\<close> is transitive, \<open>a < b\<close> is
  \<open>b > a\<close>, and exactly one of \<open>a < b\<close>, "the version strings compare equal", \<open>a > b\<close>
  holds.
\<close>

theorem Version_order:
  "((Version_eq a b \<longleftrightarrow> VersionCompare (Version_version a) (Version_version b) = 0)
      \<longrightarrow> exactly_one (Version_lt a b) (Version_eq a b) (Version_gt a b)) \<and>
   exactly_one (Version_lt a b)
      (VersionCompare (Version_version a) (Version_version b) = 0) (Version_gt a b) \<and>
   (Version_lt a b \<longrightarrow> Version_lt b c \<longrightarrow> Version_lt a c) \<and>
   (Version_gt a b \<longrightarrow> Version_gt b c \<longrightarrow> Version_gt a c) \<and>
   (Version_eq a b \<longrightarrow> Version_eq b c \<longrightarrow> Version_eq a c) \<and>
   (Version_lt a b \<longleftrightarrow> Version_gt b a) \<and>
   Version_eq a a"
proof (intro conjI impI)
  assume "Version_eq a b \<longleftrightarrow> VersionCompare (Version_version a) (Version_version b) = 0"
  then show "exactly_one (Version_lt a b) (Version_eq a b) (Version_gt a b)"
    by (auto simp: exactly_one_def Version_lt_def Version_gt_def)
next
  show "exactly_one (Version_lt a b)
      (VersionCompare (Version_version a) (Version_version b) = 0) (Version_gt a b)"
    by (auto simp: exactly_one_def Version_lt_def Version_gt_def)
next
  assume "Version_lt a b" and "Version_lt b c"
  then show "Version_lt a c"
    unfolding Version_lt_def by (rule VersionCompare_less_trans)
next
  assume "Version_gt a b" and "Version_gt b c"
  then show "Version_gt a c"
    unfolding Version_gt_def by (rule VersionCompare_greater_trans)
next
  assume "Version_eq a b" and "Version_eq b c"
  then show "Version_eq a c" by (simp add: Version_eq_def)
next
  show "Version_lt a b \<longleftrightarrow> Version_gt b a"
    using VersionCompare_sym [of "Version_version b" "Version_version a"]
    by (simp add: Version_lt_def Version_gt_def)
next
  show "Version_eq a a" by (simp add: Version_eq_def)
qed

theorem Version_order_witness:
  "Version_lt (ver 1 ''1.0'') (ver 2 ''1.1'') \<and> Version_lt (ver 2 ''1.1'') (ver 3 ''1.2'') \<and>
   Version_lt (ver 1 ''1.0'') (ver 3 ''1.2'') \<and>
   Version_gt (ver 3 ''1.2'') (ver 2 ''1.1'') \<and> Version_gt (ver 2 ''1.1'') (ver 1 ''1.0'') \<and>
   Version_gt (ver 3 ''1.2'') (ver 1 ''1.0'') \<and>
   \<not> Version_eq (ver 1 ''1.0'') (ver 2 ''1.1'') \<and>
   VersionCompare (Version_version (ver 1 ''1.0'')) (Version_version (ver 2 ''1.1'')) \<noteq> 0 \<and>
   exactly_one (Version_lt (ver 1 ''1.0'') (ver 2 ''1.1''))
               (Version_eq (ver 1 ''1.0'') (ver 2 ''1.1''))
               (Version_gt (ver 1 ''1.0'') (ver 2 ''1.1'')) \<and>
   Version_eq (ver 1 ''1.0'') (ver 1 ''1.0'')"
proof -
  have c1: "VersionCompare ''1.0'' ''1.1'' = - 1" by code_simp
  have c2: "VersionCompare ''1.1'' ''1.2'' = - 1" by code_simp
  have c3: "VersionCompare ''1.2'' ''1.1'' = 1" by code_simp
  have c4: "VersionCompare ''1.1'' ''1.0'' = 1" by code_simp
  have l1: "Version_lt (ver 1 ''1.0'') (ver 2 ''1.1'')"
    by (simp add: Version_lt_def Version_version_def ver_def mk_cand_def c1)
  have l2: "Version_lt (ver 2 ''1.1'') (ver 3 ''1.2'')"
    by (simp add: Version_lt_def Version_version_def ver_def mk_cand_def c2)
  have g1: "Version_gt (ver 3 ''1.2'') (ver 2 ''1.1'')"
    by (simp add: Version_gt_def Version_version_def ver_def mk_cand_def c3)
  have g2: "Version_gt (ver 2 ''1.1'') (ver 1 ''1.0'')"
    by (simp add: Version_gt_def Version_version_def ver_def mk_cand_def c4)
  have n: "\<not> Version_eq (ver 1 ''1.0'') (ver 2 ''1.1'')"
    by (simp add: Version_eq_def ver_def mk_cand_def)
  have z: "VersionCompare (Version_version (ver 1 ''1.0'')) (Version_version (ver 2 ''1.1'')) \<noteq> 0"
    by (simp add: Version_version_def ver_def mk_cand_def c1)
  show ?thesis
    using Version_order [of "ver 1 ''1.0''" "ver 2 ''1.1''" "ver 3 ''1.2''"]
      Version_order [of "ver 3 ''1.2''" "ver 2 ''1.1''" "ver 1 ''1.0''"]
      l1 l2 g1 g2 n z
    by blast
qed

section \<open>Properties of Version.dependencies\<close>

lemma depends_of_groups:
  "depends_of self t = map (group_of (t = ''PreDepends'')) (or_groups self t)"
  by (simp add: depends_of_def or_groups_def group_of_def split: option.splits)

lemma pre_depend_group_of:
  "b \<in> set (or_dependencies (group_of pre g)) \<Longrightarrow> pre_depend b = pre"
  by (auto simp: group_of_def Dependency_init_def BaseDependency_init_def)

text \<open>
  C8. The list that \<^verbatim>\<open>Version.dependencies\<close> returns is the or-groups listed under
  \<^verbatim>\<open>PreDepends\<close>, one \<^verbatim>\<open>Dependency\<close> each and in their order, followed by the or-groups
  listed under \<^verbatim>\<open>Depends\<close>; every \<^verbatim>\<open>BaseDependency\<close> of the former has \<^verbatim>\<open>pre_depend\<close>
  true, every one of the latter has it false.
\<close>

theorem dependencies_PreDepends_first:
  "dependencies self =
     map (group_of True) (or_groups self ''PreDepends'') @
     map (group_of False) (or_groups self ''Depends'') \<and>
   (\<forall>d \<in> set (map (group_of True) (or_groups self ''PreDepends'')).
      \<forall>b \<in> set (or_dependencies d). pre_depend b) \<and>
   (\<forall>d \<in> set (map (group_of False) (or_groups self ''Depends'')).
      \<forall>b \<in> set (or_dependencies d). \<not> pre_depend b)"
proof (intro conjI ballI)
  show "dependencies self =
     map (group_of True) (or_groups self ''PreDepends'') @
     map (group_of False) (or_groups self ''Depends'')"
    by (simp add: dependencies_def depends_of_groups)
next
  fix d b
  assume "d \<in> set (map (group_of True) (or_groups self ''PreDepends''))"
    and "b \<in> set (or_dependencies d)"
  then show "pre_depend b" using pre_depend_group_of by auto
next
  fix d b
  assume "d \<in> set (map (group_of False) (or_groups self ''Depends''))"
    and "b \<in> set (or_dependencies d)"
  then show "\<not> pre_depend b" using pre_depend_group_of by auto
qed

theorem dependencies_PreDepends_first_witness:
  "or_groups (ver 2 ''1.2'') ''PreDepends'' = [[dep ''dpkg'' ''>='' ''1.14'']] \<and>
   or_groups (ver 2 ''1.2'') ''Depends'' =
     [[dep ''libc6'' ''>='' ''2.7''], [dep ''apt'' ''='' ''1.2'', dep ''aptitude'' [] []]] \<and>
   dependencies (ver 2 ''1.2'') =
     [\<lparr>or_dependencies =
         [\<lparr>name = ''dpkg'', relation = ''>='', version = ''1.14'', pre_depend = True\<rparr>]\<rparr>,
      \<lparr>or_dependencies =
         [\<lparr>name = ''libc6'', relation = ''>='', version = ''2.7'', pre_depend = False\<rparr>]\<rparr>,
      \<lparr>or_dependencies =
         [\<lparr>name = ''apt'', relation = ''='', version = ''1.2'', pre_depend = False\<rparr>,
          \<lparr>name = ''aptitude'', relation = [], version = [], pre_depend = False\<rparr>]\<rparr>]"
proof -
  have p: "or_groups (ver 2 ''1.2'') ''PreDepends'' = [[dep ''dpkg'' ''>='' ''1.14'']]"
    by (simp add: or_groups_def ver_def mk_cand_def apt_utils_depends_def)
  have d: "or_groups (ver 2 ''1.2'') ''Depends'' =
     [[dep ''libc6'' ''>='' ''2.7''], [dep ''apt'' ''='' ''1.2'', dep ''aptitude'' [] []]]"
    by (simp add: or_groups_def ver_def mk_cand_def apt_utils_depends_def)
  show ?thesis
    using dependencies_PreDepends_first [of "ver 2 ''1.2''"] p d
    by (simp add: group_of_def Dependency_init_def BaseDependency_init_def dep_def)
qed

section \<open>Properties of Package.get_changelog\<close>

subsection \<open>The read loop and a fetch that nothing disturbs\<close>

lemma read_lines_undisturbed:
  assumes "\<And>k. \<not> isSet cancel_lock k"
  shows "read_lines cancel_lock inst src_pkg k (map Line lines) acc =
           Continue (acc @ concat (takeWhile (\<lambda>l. l \<noteq> [] \<and> \<not> stops_at inst src_pkg l) lines))"
proof (induction lines arbitrary: k acc)
  case Nil
  show ?case by (simp add: assms)
next
  case (Cons l lines)
  show ?case by (simp add: assms Cons.IH)
qed

lemma get_changelog_undisturbed:
  assumes cache: "Package_changelog w = []"
    and prep: "prepare e self uri = Continue (src_pkg, src_ver, s)"
    and quiet: "\<And>k. \<not> isSet cancel_lock k"
    and net: "urlopen e s = Response (map Line lines)"
    and kept: "kept = concat (takeWhile (\<lambda>l. l \<noteq> [] \<and> \<not> stops_at (installed_version self) src_pkg l) lines)"
  shows "get_changelog e self uri cancel_lock w =
           (Inr (if kept = [] then not_available else kept),
            w\<lparr>Package_changelog := (if kept = [] then not_available else kept),
               opened := opened w @ [s]\<rparr>)"
proof -
  have loop: "read_lines cancel_lock (installed_version self) src_pkg (Suc 0) (map Line lines) [] =
                Continue kept"
    using read_lines_undisturbed [of cancel_lock "installed_version self" src_pkg "Suc 0" lines "[]"]
      quiet kept by simp
  have dl: "download e cancel_lock (installed_version self) src_pkg src_ver s w =
          (Continue (),
           w\<lparr>defaulttimeout := Some 2, opened := opened w @ [s],
              Package_changelog := (if kept = [] then not_available else kept)\<rparr>)"
    by (simp add: download_def Let_def quiet net loop)
  show ?thesis
    by (simp add: get_changelog_def cache prep dl)
qed

lemma stops_at_not_installed: "stops_at None src_pkg line = False"
  by (simp add: stops_at_def split: option.splits)

lemma takeWhile_nonempty:
  "[] \<notin> set lines \<Longrightarrow> takeWhile (\<lambda>l. l \<noteq> [] \<and> P l) lines = takeWhile P lines"
  by (induction lines) auto

subsection \<open>The header pattern\<close>

lemma rev_split_at_last:
  assumes "c \<in> set body"
  shows "body = rev (tl (dropWhile (\<lambda>x. x \<noteq> c) (rev body))) @ c #
                rev (takeWhile (\<lambda>x. x \<noteq> c) (rev body))"
proof -
  from assms have "c \<in> set (rev body)" by simp
  then have "dropWhile (\<lambda>x. x \<noteq> c) (rev body) \<noteq> []"
    by (simp add: dropWhile_eq_Nil_conv)
  moreover have "hd (dropWhile (\<lambda>x. x \<noteq> c) (rev body)) = c"
    using hd_dropWhile [OF calculation] by simp
  ultimately have d: "dropWhile (\<lambda>x. x \<noteq> c) (rev body) =
                        c # tl (dropWhile (\<lambda>x. x \<noteq> c) (rev body))"
    by (metis list.collapse)
  have "rev body = takeWhile (\<lambda>x. x \<noteq> c) (rev body) @ dropWhile (\<lambda>x. x \<noteq> c) (rev body)"
    by simp
  then have "rev body = takeWhile (\<lambda>x. x \<noteq> c) (rev body) @
                          c # tl (dropWhile (\<lambda>x. x \<noteq> c) (rev body))"
    using d by simp
  then have "rev (rev body) = rev (takeWhile (\<lambda>x. x \<noteq> c) (rev body) @
                          c # tl (dropWhile (\<lambda>x. x \<noteq> c) (rev body)))"
    by (rule arg_cong)
  then show ?thesis by simp
qed

lemma endswith_single:
  assumes "endswith s [c]"
  shows "s = butlast s @ [c]"
proof -
  from assms have d: "drop (length s - 1) s = [c]" by (simp add: endswith_def)
  show ?thesis by (metis append_take_drop_id butlast_conv_take d)
qed

text \<open>
  What a match means: the line is the source name, \<^verbatim>\<open>" ("\<close>, the first group, \<^verbatim>\<open>")"\<close>,
  the second group, and at most one final newline; the groups hold no newline, and the
  second holds no closing parenthesis.
\<close>

lemma match_header_shape:
  assumes "match_header src_pkg line = Some (group1, group2)"
  shows "(line = src_pkg @ '' ('' @ group1 @ '')'' @ group2 \<or>
          line = src_pkg @ '' ('' @ group1 @ '')'' @ group2 @ [NL]) \<and>
         NL \<notin> set group1 \<and> NL \<notin> set group2 \<and> CHR '')'' \<notin> set group2"
proof -
  define rest where "rest = drop (length (src_pkg @ '' ('')) line"
  define body where "body = (if endswith rest [NL] then butlast rest else rest)"
  from assms have st: "startswith line (src_pkg @ '' ('')"
    by (simp add: match_header_def split: if_splits)
  then have line: "line = (src_pkg @ '' ('') @ rest"
    unfolding rest_def startswith_def by (metis append_take_drop_id)
  from assms st have nl: "NL \<notin> set body" and par: "CHR '')'' \<in> set body"
    and g1: "group1 = rev (tl (dropWhile (\<lambda>c. c \<noteq> CHR '')'') (rev body)))"
    and g2: "group2 = rev (takeWhile (\<lambda>c. c \<noteq> CHR '')'') (rev body))"
    unfolding body_def rest_def
    by (simp_all add: match_header_def Let_def split: if_splits)
  have body: "body = group1 @ CHR '')'' # group2"
    using rev_split_at_last [OF par] g1 g2 by simp
  have rb: "rest = body \<or> rest = body @ [NL]"
  proof (cases "endswith rest [NL]")
    case True
    then have "rest = butlast rest @ [NL]" by (rule endswith_single)
    then show ?thesis using True by (simp add: body_def)
  next
    case False
    then show ?thesis by (simp add: body_def)
  qed
  have "CHR '')'' \<notin> set group2"
    unfolding g2 using set_takeWhileD by fastforce
  moreover have "NL \<notin> set group1" and "NL \<notin> set group2"
    using nl body by auto
  ultimately show ?thesis using rb line body by auto
qed

lemma match_header_examples:
  "match_header ''apt'' (''apt (1.2) unstable; urgency=low'' @ [NL]) =
     Some (''1.2'', '' unstable; urgency=low'') \<and>
   match_header ''apt'' ''apt (1:1.1) (really 1.1); urgency=low'' =
     Some (''1:1.1) (really 1.1'', ''; urgency=low'') \<and>
   match_header ''apt'' (''apt-utils (1.2) unstable; urgency=low'' @ [NL]) = None \<and>
   match_header ''apt'' (''  * apt (1.2) mentioned'' @ [NL]) = None"
  by code_simp

subsection \<open>Facts about the concrete inputs\<close>

lemma prepare_apt_utils:
  "prepare network apt_utils None = Continue (''apt'', ''1.2'', changelog_uri)"
  by code_simp

lemma installed_version_apt_utils: "installed_version apt_utils = Some ''1.0''"
  by code_simp

lemma changelog_stream_nonempty: "[] \<notin> set changelog_stream"
  by code_simp

lemma urlopen_network: "urlopen network changelog_uri = Response (map Line changelog_stream)"
  by (simp add: network_def)

lemma kept_of_changelog_stream:
  "takeWhile (\<lambda>l. \<not> header_not_above ''1.0'' ''apt'' l) changelog_stream
     = entry_1_2 @ entry_1_1"
  by code_simp






subsection \<open>The epoch in the test of the loop\<close>

lemma split_once_second:
  "c \<in> set v \<Longrightarrow>
   split_once c v ! Suc 0 = drop (Suc (length (takeWhile (\<lambda>x. x \<noteq> c) v))) v"
proof -
  assume "c \<in> set v"
  then have "dropWhile (\<lambda>x. x \<noteq> c) v \<noteq> []" by (simp add: dropWhile_eq_Nil_conv)
  have "tl (dropWhile (\<lambda>x. x \<noteq> c) v) = drop (Suc 0) (dropWhile (\<lambda>x. x \<noteq> c) v)"
    by (simp add: drop_Suc)
  also have "\<dots> = drop (Suc 0) (drop (length (takeWhile (\<lambda>x. x \<noteq> c) v)) v)"
    by (simp only: dropWhile_eq_drop)
  also have "\<dots> = drop (Suc (length (takeWhile (\<lambda>x. x \<noteq> c) v))) v"
    by simp
  finally show ?thesis using \<open>c \<in> set v\<close> by (simp add: split_once_def)
qed

text \<open>What the code strips is the epoch: the text up to and including the first colon.\<close>

lemma strip_epoch_epoch_stripped: "strip_epoch v = epoch_stripped v"
proof (cases "CHR '':'' \<in> set v")
  case True
  then have "v \<noteq> []" by auto
  with True show ?thesis
    by (simp add: strip_epoch_def epoch_stripped_def split_once_second)
next
  case False
  then show ?thesis by (simp add: strip_epoch_def epoch_stripped_def)
qed

lemma stops_at_installed:
  "epoch_stripped v \<noteq> [] \<Longrightarrow>
   stops_at (Some v) src_pkg line = header_not_above v src_pkg line"
  by (simp add: stops_at_def header_not_above_def strip_epoch_epoch_stripped
        split: option.splits)

lemma fetch_apt_utils:
  "fst (get_changelog network apt_utils None None fresh) = Inr (concat (entry_1_2 @ entry_1_1))"
proof -
  have h1: "Package_changelog fresh = []" by (simp add: fresh_def)
  have q: "\<And>k. \<not> isSet None k" by (simp add: isSet_def)
  have e: "epoch_stripped ''1.0'' \<noteq> []" by code_simp
  have "takeWhile (\<lambda>l. l \<noteq> [] \<and> \<not> stops_at (installed_version apt_utils) ''apt'' l)
          changelog_stream = entry_1_2 @ entry_1_1"
    using changelog_stream_nonempty e kept_of_changelog_stream
    by (simp add: takeWhile_nonempty installed_version_apt_utils stops_at_installed)
  then have k: "concat (entry_1_2 @ entry_1_1) =
          concat (takeWhile (\<lambda>l. l \<noteq> [] \<and> \<not> stops_at (installed_version apt_utils) ''apt'' l)
                    changelog_stream)"
    by (simp only:)
  have ne: "concat (entry_1_2 @ entry_1_1) \<noteq> []" by code_simp
  have "fst (get_changelog network apt_utils None None fresh) =
          Inr (if concat (entry_1_2 @ entry_1_1) = [] then not_available
               else concat (entry_1_2 @ entry_1_1))"
    using get_changelog_undisturbed [OF h1 prepare_apt_utils q urlopen_network k]
    by (simp only: fst_conv)
  then show ?thesis by (simp only: ne if_False)
qed

subsection \<open>Where the changelog stops\<close>



subsection \<open>A package that is not installed\<close>

text \<open>
  C10. When the package has no installed version the test of the loop is false at every
  line, so no header line ends the reading: a fetch that is neither cached, cancelled
  nor failing returns and caches every line of the stream, header lines included. (When
  the stream is empty the text is the message that no changes are available.)
\<close>

theorem get_changelog_not_installed:
  assumes "Package_changelog w = []"
    and "prepare e self uri = Continue (src_pkg, src_ver, s)"
    and "\<forall>k. \<not> isSet cancel_lock k"
    and "urlopen e s = Response (map Line lines)"
    and "[] \<notin> set lines"
    and "installed self = None"
  shows "\<not> stops_at (installed_version self) src_pkg line \<and>
         fst (get_changelog e self uri cancel_lock w) =
           Inr (if concat lines = [] then not_available else concat lines) \<and>
         Package_changelog (snd (get_changelog e self uri cancel_lock w)) =
           (if concat lines = [] then not_available else concat lines)"
proof -
  have inst: "installed_version self = None"
    using assms(6) by (simp add: installed_version_def)
  have tw: "takeWhile (\<lambda>l. l \<noteq> [] \<and> \<not> stops_at (installed_version self) src_pkg l) lines
          = lines"
    using assms(5) by (simp add: inst stops_at_not_installed takeWhile_eq_all_conv) metis
  have k: "concat lines = concat (takeWhile (\<lambda>l. l \<noteq> [] \<and>
                    \<not> stops_at (installed_version self) src_pkg l) lines)"
    by (simp only: tw)
  have "get_changelog e self uri cancel_lock w =
           (Inr (if concat lines = [] then not_available else concat lines),
            w\<lparr>Package_changelog := (if concat lines = [] then not_available else concat lines),
               opened := opened w @ [s]\<rparr>)"
    using get_changelog_undisturbed [OF assms(1) assms(2) _ assms(4) k] assms(3) by simp
  then show ?thesis by (simp add: inst stops_at_not_installed)
qed

theorem get_changelog_not_installed_witness:
  "installed apt_utils_new = None \<and>
   fst (get_changelog network apt_utils_new None None fresh) = Inr (concat changelog_stream) \<and>
   Package_changelog (snd (get_changelog network apt_utils_new None None fresh)) =
     concat changelog_stream"
proof -
  have h1: "Package_changelog fresh = []" by (simp add: fresh_def)
  have h2: "prepare network apt_utils_new None = Continue (''apt'', ''1.2'', changelog_uri)"
    by code_simp
  have h3: "\<forall>k. \<not> isSet None k" by (simp add: isSet_def)
  have h6: "installed apt_utils_new = None" by (simp add: installed_def apt_utils_new_def)
  have ne: "concat changelog_stream \<noteq> []" by code_simp
  have "fst (get_changelog network apt_utils_new None None fresh) =
           Inr (if concat changelog_stream = [] then not_available else concat changelog_stream) \<and>
         Package_changelog (snd (get_changelog network apt_utils_new None None fresh)) =
           (if concat changelog_stream = [] then not_available else concat changelog_stream)"
    using get_changelog_not_installed [OF h1 h2 h3 urlopen_network changelog_stream_nonempty h6]
    by blast
  then show ?thesis using h6 by (simp only: ne if_False simp_thms)
qed

subsection \<open>The default timeout\<close>

lemma download_sets_timeout:
  "defaulttimeout (snd (download e cancel_lock inst src_pkg src_ver s w)) = Some 2"
  by (simp add: download_def Let_def split: urlopen_result.splits flow.splits)

text \<open>
  C6. Whatever the arguments, the network and the state are, and however the call ends
  (a cached text, a text returned early, a cancellation, a message for a network
  failure, an exception that escapes, a changelog), the default timeout after
  \<^verbatim>\<open>get_changelog\<close> is the default timeout before it.
\<close>

theorem get_changelog_restores_timeout:
  "defaulttimeout (snd (get_changelog e self uri cancel_lock w)) = defaulttimeout w"
  by (simp add: get_changelog_def Let_def split: flow.splits prod.splits)

theorem get_changelog_restores_timeout_witness:
  "fst (get_changelog broken_network apt_utils None None fresh) = Inl UnicodeDecodeError \<and>
   defaulttimeout fresh = Some 30 \<and>
   defaulttimeout (snd (get_changelog broken_network apt_utils None None fresh)) = Some 30"
proof -
  have r: "fst (get_changelog broken_network apt_utils None None fresh) = Inl UnicodeDecodeError"
    by code_simp
  have t: "defaulttimeout fresh = Some 30" by (simp add: fresh_def)
  show ?thesis
    using get_changelog_restores_timeout [of broken_network apt_utils None None fresh] r t
    by simp
qed

subsection \<open>Cancellation\<close>

lemma download_opened_irrelevant:
  "fst (download e cancel_lock inst src_pkg src_ver s (w\<lparr>opened := x\<rparr>)) =
   fst (download e cancel_lock inst src_pkg src_ver s w)"
  by (simp add: download_def Let_def split: urlopen_result.splits flow.splits)

lemma download_changelog_opened_irrelevant:
  "Package_changelog (snd (download e cancel_lock inst src_pkg src_ver s (w\<lparr>opened := x\<rparr>))) =
   Package_changelog (snd (download e cancel_lock inst src_pkg src_ver s w))"
  by (simp add: download_def Let_def split: urlopen_result.splits flow.splits)

lemma download_opens:
  "\<not> isSet cancel_lock 0 \<Longrightarrow>
   opened (snd (download e cancel_lock inst src_pkg src_ver s w)) = opened w @ [s]"
  by (simp add: download_def Let_def split: urlopen_result.splits flow.splits)

lemma get_changelog_opened_irrelevant:
  "fst (get_changelog e self uri cancel_lock (w\<lparr>opened := x\<rparr>)) =
   fst (get_changelog e self uri cancel_lock w)"
proof -
  have "fst (case download e cancel_lock inst src_pkg src_ver s (w\<lparr>opened := x\<rparr>) of
               (fl, w') \<Rightarrow>
                 (case fl of
                    Raise x \<Rightarrow> (Inl x, w'\<lparr>defaulttimeout := t\<rparr>)
                  | Return r \<Rightarrow> (Inr r, w'\<lparr>defaulttimeout := t\<rparr>)
                  | Continue u \<Rightarrow>
                      (Inr (Package_changelog (w'\<lparr>defaulttimeout := t\<rparr>)),
                       w'\<lparr>defaulttimeout := t\<rparr>))) =
        fst (case download e cancel_lock inst src_pkg src_ver s w of
               (fl, w') \<Rightarrow>
                 (case fl of
                    Raise x \<Rightarrow> (Inl x, w'\<lparr>defaulttimeout := t\<rparr>)
                  | Return r \<Rightarrow> (Inr r, w'\<lparr>defaulttimeout := t\<rparr>)
                  | Continue u \<Rightarrow>
                      (Inr (Package_changelog (w'\<lparr>defaulttimeout := t\<rparr>)),
                       w'\<lparr>defaulttimeout := t\<rparr>)))"
    for inst src_pkg src_ver s t
    using download_opened_irrelevant [where e = e and cancel_lock = cancel_lock
        and inst = inst and src_pkg = src_pkg and src_ver = src_ver and s = s and w = w
        and x = x]
      download_changelog_opened_irrelevant [where e = e and cancel_lock = cancel_lock
        and inst = inst and src_pkg = src_pkg and src_ver = src_ver and s = s and w = w
        and x = x]
    by (cases "download e cancel_lock inst src_pkg src_ver s (w\<lparr>opened := x\<rparr>)";
        cases "download e cancel_lock inst src_pkg src_ver s w")
       (auto split: flow.splits)
  then show ?thesis
    by (simp add: get_changelog_def Let_def split: flow.splits prod.splits)
qed

lemma get_changelog_opens:
  assumes "Package_changelog w = []"
    and "prepare e self uri = Continue (src_pkg, src_ver, s)"
    and "\<not> isSet cancel_lock 0"
  shows "opened (snd (get_changelog e self uri cancel_lock w)) = opened w @ [s]"
  using assms download_opens [OF assms(3), where e = e and inst = "installed_version self"
      and src_pkg = src_pkg and src_ver = src_ver and s = s and w = w]
  by (cases "download e cancel_lock (installed_version self) src_pkg src_ver s w")
     (simp add: get_changelog_def Let_def split: flow.splits)

text \<open>
  C7. Let the call reach the download: nothing is cached and the preparation yields a
  URI. If the lock is set when it is first asked, before the URI is opened, or when it is
  asked next, before the first line of the opened stream is read, then
  \<^verbatim>\<open>get_changelog\<close> returns the empty string and the cache stays empty (in the first case
  nothing at all has changed, in the second only the URI has been opened). A later call
  whose lock is not set at the start therefore opens the URI again, and returns what it
  would have returned had the cancelled call never been made.
\<close>

theorem get_changelog_cancelled:
  assumes "Package_changelog w = []"
    and "prepare e self uri = Continue (src_pkg, src_ver, s)"
  shows "(c 0 \<longrightarrow> get_changelog e self uri (Some c) w = (Inr [], w)) \<and>
         (\<not> c 0 \<and> c 1 \<and> urlopen e s = Response evs \<longrightarrow>
            get_changelog e self uri (Some c) w = (Inr [], w\<lparr>opened := opened w @ [s]\<rparr>)) \<and>
         (c 0 \<or> (c 1 \<and> urlopen e s = Response evs) \<longrightarrow>
            fst (get_changelog e self uri (Some c) w) = Inr [] \<and>
            Package_changelog (snd (get_changelog e self uri (Some c) w)) = [] \<and>
            (\<not> isSet later 0 \<longrightarrow>
               opened (snd (get_changelog e self uri later
                              (snd (get_changelog e self uri (Some c) w)))) =
                 opened (snd (get_changelog e self uri (Some c) w)) @ [s] \<and>
               fst (get_changelog e self uri later
                      (snd (get_changelog e self uri (Some c) w))) =
                 fst (get_changelog e self uri later w)))"
proof -
  have first: "get_changelog e self uri (Some c) w = (Inr [], w)" if "c 0"
    using that assms by (simp add: get_changelog_def download_def Let_def isSet_def)
  have second: "get_changelog e self uri (Some c) w = (Inr [], w\<lparr>opened := opened w @ [s]\<rparr>)"
    if "\<not> c 0" and "c 1" and "urlopen e s = Response evs"
  proof -
    have "read_lines (Some c) (installed_version self) src_pkg (Suc 0) evs [] = Return []"
      using that(2) by (cases evs) (simp_all add: isSet_def)
    then show ?thesis
      using that assms by (simp add: get_changelog_def download_def Let_def isSet_def)
  qed
  have after: "fst (get_changelog e self uri (Some c) w) = Inr [] \<and>
            Package_changelog (snd (get_changelog e self uri (Some c) w)) = [] \<and>
            (\<not> isSet later 0 \<longrightarrow>
               opened (snd (get_changelog e self uri later
                              (snd (get_changelog e self uri (Some c) w)))) =
                 opened (snd (get_changelog e self uri (Some c) w)) @ [s] \<and>
               fst (get_changelog e self uri later
                      (snd (get_changelog e self uri (Some c) w))) =
                 fst (get_changelog e self uri later w))"
    if "c 0 \<or> (c 1 \<and> urlopen e s = Response evs)"
  proof (cases "c 0")
    case True
    show ?thesis
      using get_changelog_opens [OF assms, of later]
      by (simp add: first [OF True] assms)
  next
    case False
    with that have r: "get_changelog e self uri (Some c) w =
                         (Inr [], w\<lparr>opened := opened w @ [s]\<rparr>)"
      using second by blast
    have c': "Package_changelog (w\<lparr>opened := opened w @ [s]\<rparr>) = []"
      using assms(1) by simp
    show ?thesis
      using get_changelog_opens [OF c' assms(2), of later]
      by (simp add: r assms get_changelog_opened_irrelevant)
  qed
  show ?thesis using first second after by blast
qed

theorem get_changelog_cancelled_witness:
  "Package_changelog fresh = [] \<and>
   prepare network apt_utils None = Continue (''apt'', ''1.2'', changelog_uri) \<and>
   set_from 0 0 \<and>
   get_changelog network apt_utils None (Some (set_from 0)) fresh = (Inr [], fresh) \<and>
   \<not> set_from 1 0 \<and> set_from 1 1 \<and>
   get_changelog network apt_utils None (Some (set_from 1)) fresh =
     (Inr [], fresh\<lparr>opened := opened fresh @ [changelog_uri]\<rparr>) \<and>
   \<not> isSet None 0 \<and>
   opened (snd (get_changelog network apt_utils None None
                  (snd (get_changelog network apt_utils None (Some (set_from 0)) fresh)))) =
     [changelog_uri] \<and>
   fst (get_changelog network apt_utils None None
          (snd (get_changelog network apt_utils None (Some (set_from 0)) fresh))) =
     Inr (concat (entry_1_2 @ entry_1_1))"
proof -
  have h1: "Package_changelog fresh = []" by (simp add: fresh_def)
  have o: "opened fresh = []" by (simp add: fresh_def)
  have s0: "set_from 0 0" and s1: "\<not> set_from 1 0" and s2: "set_from 1 1"
    by (simp_all add: set_from_def)
  have l: "\<not> isSet None 0" by (simp add: isSet_def)
  note A = get_changelog_cancelled [OF h1 prepare_apt_utils,
      of "set_from 0" "map Line changelog_stream" None]
  note B = get_changelog_cancelled [OF h1 prepare_apt_utils,
      of "set_from 1" "map Line changelog_stream" None]
  have a1: "get_changelog network apt_utils None (Some (set_from 0)) fresh = (Inr [], fresh)"
    using A s0 by blast
  have a2: "opened (snd (get_changelog network apt_utils None None
                  (snd (get_changelog network apt_utils None (Some (set_from 0)) fresh)))) =
              opened (snd (get_changelog network apt_utils None (Some (set_from 0)) fresh))
                @ [changelog_uri]"
    using A s0 l by blast
  have a3: "fst (get_changelog network apt_utils None None
                  (snd (get_changelog network apt_utils None (Some (set_from 0)) fresh))) =
              fst (get_changelog network apt_utils None None fresh)"
    using A s0 l by blast
  have b1: "get_changelog network apt_utils None (Some (set_from 1)) fresh =
              (Inr [], fresh\<lparr>opened := opened fresh @ [changelog_uri]\<rparr>)"
    using B s1 s2 urlopen_network by blast
  have a2': "opened (snd (get_changelog network apt_utils None None
                  (snd (get_changelog network apt_utils None (Some (set_from 0)) fresh)))) =
              [changelog_uri]"
    using a2 by (simp add: a1 o)
  have a3': "fst (get_changelog network apt_utils None None
                  (snd (get_changelog network apt_utils None (Some (set_from 0)) fresh))) =
              Inr (concat (entry_1_2 @ entry_1_1))"
    using a3 fetch_apt_utils by (simp only:)
  show ?thesis
    using h1 prepare_apt_utils s0 a1 s1 s2 b1 l a2' a3' by blast
qed

subsection \<open>Epochs\<close>

lemma dropWhile_until:
  "c \<notin> set a \<Longrightarrow> dropWhile (\<lambda>x. x \<noteq> c) (a @ c # b) = c # b"
  by (induction a) auto

lemma strip_epoch_after_first_colon:
  "CHR '':'' \<notin> set a \<Longrightarrow> strip_epoch (a @ CHR '':'' # b) = b"
  by (simp add: strip_epoch_def split_once_def dropWhile_until)

lemma strip_epoch_no_colon: "CHR '':'' \<notin> set v \<Longrightarrow> strip_epoch v = v"
  by (simp add: strip_epoch_def)

lemma url_src_ver_single_colon:
  assumes "CHR '':'' \<notin> set a" and "CHR '':'' \<notin> set b"
  shows "url_src_ver (a @ CHR '':'' # b) = b"
  using split_on_first [OF assms(1), of b] split_on_no_separator [OF assms(2)]
  by (simp add: url_src_ver_def)

lemma url_src_ver_no_colon: "CHR '':'' \<notin> set v \<Longrightarrow> url_src_ver v = v"
  by (simp add: url_src_ver_def split_on_no_separator)

lemma epoch_stripped_versions_agree:
  "url_src_ver ''2:1.0-1'' = ''1.0-1'' \<and> strip_epoch ''2:1.0-1'' = ''1.0-1'' \<and>
   strip_epoch ''1.0-1'' = ''1.0-1'' \<and>
   VersionCompare (strip_epoch ''2:1.0-1'') (strip_epoch ''1.0-1'') = 0 \<and>
   VersionCompare ''2:1.0-1'' ''1.0-1'' = 1"
  by code_simp

text \<open>
  C9. The comparison that stops the reading removes the text up to and including the
  first colon, and so does the version put into the URI when there is one colon: then
  \<^verbatim>\<open>2:1.0-1\<close> and \<^verbatim>\<open>1.0-1\<close> agree, while the full comparison tells them apart. With a
  second colon the two differ: for the URI the code joins the pieces after the first
  colon without their colons. For the version \<^verbatim>\<open>1:2:3\<close> the text after the first colon is
  \<^verbatim>\<open>2:3\<close>, and the URI is built with \<^verbatim>\<open>23\<close>.
\<close>

theorem url_src_ver_drops_later_colons:
  "strip_epoch ''1:2:3'' = ''2:3'' \<and> url_src_ver ''1:2:3'' = ''23'' \<and>
   prepare network apt_utils_epoch None =
     Continue (''apt'', ''23'',
       ''http://packages.debian.org/changelogs/pool/main/a/apt/apt_23/changelog'')"
  by code_simp

section \<open>Properties of Version.fetch_binary\<close>

lemma fetch_binary_existing_file:
  assumes "Version_records self = Inr records"
    and "file_is_same sys (join destdir (basename (FileName records)))
             (Size (cand self)) (MD5Hash records)"
  shows "fst (fetch_binary sys self destdir w) = Inr None \<and>
         requested (snd (fetch_binary sys self destdir w)) = requested w"
  using assms by (simp add: fetch_binary_def Let_def)

lemma fetch_binary_fetched:
  assumes "Version_records self = Inr records"
    and "\<not> file_is_same sys (join destdir (basename (FileName records)))
             (Size (cand self)) (MD5Hash records)"
    and "Version_uri self = Inr u"
    and "first_not_done (Run sys [(u, MD5Hash records, Size (cand self),
             basename (FileName records),
             join destdir (basename (FileName records)))]) = None"
  shows "fst (fetch_binary sys self destdir w) =
           Inr (Some (abspath sys (join destdir (basename (FileName records)))))"
  using assms by (simp add: fetch_binary_def Let_def)

lemma fetch_binary_no_record:
  "Version_records self = Inl x \<Longrightarrow> fetch_binary sys self destdir w = (Inl x, w)"
  by (simp add: fetch_binary_def)

lemma Version_records_no_files:
  "FileList (cand self) = [] \<Longrightarrow> Version_records self = Inl IndexError"
  by (simp add: Version_records_def)

lemma Version_records_lookup_fails:
  "FileList (cand self) \<noteq> [] \<Longrightarrow> \<not> Records_Lookup (cand self) \<Longrightarrow>
   Version_records self = Inl AttributeError"
  by (cases "FileList (cand self)") (simp_all add: Version_records_def)

text \<open>
  C4. When the destination file is there with the size and the MD5 digest of the record,
  \<^verbatim>\<open>fetch_binary\<close> gives no request to the acquisition engine, prints that it ignores the
  file, and returns \<^verbatim>\<open>None\<close>; the path of the file is what it returns after a download.
\<close>

theorem fetch_binary_existing_file_returns_None:
  "fetch_binary disk_with_file (ver 2 ''1.2'') ''/var/tmp'' nothing_fetched =
     (Inr None,
      \<lparr>requested = [],
       stdout = [''Ignoring already existing file: /var/tmp/apt-utils_1.2_amd64.deb'']\<rparr>) \<and>
   fetch_binary empty_disk (ver 2 ''1.2'') ''/var/tmp'' nothing_fetched =
     (Inr (Some ''/var/tmp/apt-utils_1.2_amd64.deb''),
      \<lparr>requested =
         [(''http://ftp.debian.org/debian/pool/main/a/apt/apt-utils_1.2_amd64.deb'',
           ''0123456789abcdef0123456789abcdef'', 1024, ''apt-utils_1.2_amd64.deb'',
           ''/var/tmp/apt-utils_1.2_amd64.deb'')],
       stdout = []\<rparr>)"
  by code_simp

section \<open>Properties of Package.mark_delete\<close>

text \<open>
  C5, as the code has it. Nothing in \<^verbatim>\<open>mark_delete\<close> catches what the resolver raises:
  with \<^verbatim>\<open>auto_fix\<close> set and a positive broken count, a resolver that raises
  \<^verbatim>\<open>SystemError\<close> makes the call raise it.
\<close>

theorem mark_delete_resolver_raises_counterexample:
  "0 < BrokenCount raising_engine
         (MarkDelete raising_engine (Name apt_utils) False (depcache untouched)) \<and>
   fst (mark_delete raising_engine apt_utils True False untouched) = Inl SystemError"
  by (simp add: mark_delete_def raising_engine_def untouched_def Let_def)

text \<open>
  C5, amended. With \<^verbatim>\<open>auto_fix\<close> set and a positive broken count after the removal,
  \<^verbatim>\<open>mark_delete\<close> runs the resolver on this package and ignores what \<^verbatim>\<open>Resolve\<close>
  returns: whatever the verdict, the call returns normally, with the cache as the
  resolver left it and the post-change notification sent, and the caller is left to look
  at the broken count. What \<^verbatim>\<open>Resolve\<close> raises is raised to the caller, and the
  post-change notification is then not sent.
\<close>

theorem mark_delete_resolver_outcome:
  assumes "0 < BrokenCount eng (MarkDelete eng (Name self) purge (depcache pc))"
    and "dirs = [Clear (Name self), Protect (Name self), Remove (Name self), InstallProtect]"
  shows "(Resolve eng dirs (MarkDelete eng (Name self) purge (depcache pc)) = (Inr res, d) \<longrightarrow>
            mark_delete eng self True purge pc =
              (Inr (), pc\<lparr>depcache := d,
                          notifications := notifications pc @
                            [cache_pre_change, cache_post_change]\<rparr>)) \<and>
         (Resolve eng dirs (MarkDelete eng (Name self) purge (depcache pc)) = (Inl x, d) \<longrightarrow>
            mark_delete eng self True purge pc =
              (Inl x, pc\<lparr>depcache := d,
                         notifications := notifications pc @ [cache_pre_change]\<rparr>))"
  using assms by (simp add: mark_delete_def Let_def)

theorem mark_delete_resolver_outcome_witness:
  "0 < BrokenCount giving_up_engine
         (MarkDelete giving_up_engine (Name apt_utils) False (depcache untouched)) \<and>
   Resolve giving_up_engine
       [Clear (Name apt_utils), Protect (Name apt_utils), Remove (Name apt_utils),
        InstallProtect]
       (MarkDelete giving_up_engine (Name apt_utils) False (depcache untouched)) =
     (Inr False, 1) \<and>
   mark_delete giving_up_engine apt_utils True False untouched =
     (Inr (), \<lparr>depcache = 1, notifications = [cache_pre_change, cache_post_change]\<rparr>) \<and>
   0 < BrokenCount raising_engine
         (MarkDelete raising_engine (Name apt_utils) False (depcache untouched)) \<and>
   Resolve raising_engine
       [Clear (Name apt_utils), Protect (Name apt_utils), Remove (Name apt_utils),
        InstallProtect]
       (MarkDelete raising_engine (Name apt_utils) False (depcache untouched)) =
     (Inl SystemError, 1) \<and>
   mark_delete raising_engine apt_utils True False untouched =
     (Inl SystemError, \<lparr>depcache = 1, notifications = [cache_pre_change]\<rparr>)"
proof -
  have b1: "0 < BrokenCount giving_up_engine
         (MarkDelete giving_up_engine (Name apt_utils) False (depcache untouched))"
    by (simp add: giving_up_engine_def)
  have r1: "Resolve giving_up_engine
       [Clear (Name apt_utils), Protect (Name apt_utils), Remove (Name apt_utils),
        InstallProtect]
       (MarkDelete giving_up_engine (Name apt_utils) False (depcache untouched)) =
     (Inr False, 1)"
    by (simp add: giving_up_engine_def untouched_def)
  have b2: "0 < BrokenCount raising_engine
         (MarkDelete raising_engine (Name apt_utils) False (depcache untouched))"
    by (simp add: raising_engine_def)
  have r2: "Resolve raising_engine
       [Clear (Name apt_utils), Protect (Name apt_utils), Remove (Name apt_utils),
        InstallProtect]
       (MarkDelete raising_engine (Name apt_utils) False (depcache untouched)) =
     (Inl SystemError, 1)"
    by (simp add: raising_engine_def untouched_def)
  have m1: "mark_delete giving_up_engine apt_utils True False untouched =
     (Inr (), \<lparr>depcache = 1, notifications = [cache_pre_change, cache_post_change]\<rparr>)"
    using mark_delete_resolver_outcome [OF b1 refl, where res = False and d = 1] r1
    by (simp add: untouched_def)
  have m2: "mark_delete raising_engine apt_utils True False untouched =
     (Inl SystemError, \<lparr>depcache = 1, notifications = [cache_pre_change]\<rparr>)"
    using mark_delete_resolver_outcome [OF b2 refl, where x = SystemError and d = 1] r2
    by (simp add: untouched_def)
  show ?thesis using b1 r1 m1 b2 r2 m2 by blast
qed

end
